theory Spec2Isabelle
  imports Main "HOL-Library.AList"
begin

section \<open>The selector patterns\<close>

text \<open>
  The source holds three regular expressions:
  \<^verbatim>\<open>
  const patterns = {
    tag: /^([a-zA-Z0-9-_]+)/,
    id: /\#([a-zA-Z0-9-_]+)/,
    class: /\.([a-zA-Z0-9-_]+)/g,
  };
  \<close>
  All three share one character class: the ASCII letters, the ASCII digits, the hyphen
  and the underscore. Strings are lists of 8-bit characters here; the patterns only ever
  accept ASCII characters.
\<close>

definition ascii_alpha :: "char \<Rightarrow> bool" where
  "ascii_alpha c =
     (let n = (of_char c :: nat) in (65 \<le> n \<and> n \<le> 90) \<or> (97 \<le> n \<and> n \<le> 122))"

definition ascii_digit :: "char \<Rightarrow> bool" where
  "ascii_digit c = (let n = (of_char c :: nat) in 48 \<le> n \<and> n \<le> 57)"

definition wordchar :: "char \<Rightarrow> bool" where
  "wordchar c = (ascii_alpha c \<or> ascii_digit c \<or> c = CHR ''-'' \<or> c = CHR ''_'')"

text \<open>
  \<^verbatim>\<open>selector.match(patterns.tag)?.[1]\<close>: the pattern is anchored at the start and its
  group is greedy, so the capture is the longest leading run of the class; an empty run
  is no match (\<^verbatim>\<open>undefined\<close> after the optional chaining).
\<close>

definition match_tag :: "string \<Rightarrow> string option" where
  "match_tag selector =
     (let run = takeWhile wordchar selector in if run = [] then None else Some run)"

text \<open>
  \<^verbatim>\<open>selector.match(patterns.id)?.[1]\<close>: the pattern is not anchored and not global. The
  match is the leftmost position holding a \<^verbatim>\<open>#\<close> followed by at least one character of
  the class; the capture is the longest run after that \<^verbatim>\<open>#\<close>.
\<close>

fun match_id :: "string \<Rightarrow> string option" where
  "match_id [] = None"
| "match_id (c # cs) =
     (if c = CHR ''#'' \<and> takeWhile wordchar cs \<noteq> [] then Some (takeWhile wordchar cs)
      else match_id cs)"

text \<open>
  \<^verbatim>\<open>selector.match(patterns.class)\<close>: with the global flag, \<^verbatim>\<open>match\<close> returns the whole
  text of every match (the dot included), left to right, each search resuming where the
  previous match ended; it returns \<^verbatim>\<open>null\<close> when there is none.
\<close>

function class_matches :: "string \<Rightarrow> string list" where
  "class_matches [] = []"
| "class_matches (c # cs) =
     (if c = CHR ''.'' \<and> takeWhile wordchar cs \<noteq> []
      then (c # takeWhile wordchar cs) # class_matches (dropWhile wordchar cs)
      else class_matches cs)"
  by pat_completeness auto
termination
  by (relation "measure length") (auto simp: length_dropWhile_le less_Suc_eq_le)

definition match_class :: "string \<Rightarrow> string list option" where
  "match_class selector =
     (case class_matches selector of [] \<Rightarrow> None | m # ms \<Rightarrow> Some (m # ms))"

section \<open>Values, nodes and the document\<close>

text \<open>
  The values a property can hold and a callback can return or throw. Numbers are the
  integral ones, of a size that JavaScript prints in full; the builder itself never looks
  at the payload of a number.
\<close>

datatype jsval =
    JSUndefined
  | JSNull
  | JSBoolean bool
  | JSNumber int
  | JSString string
  | JSObject "(string \<times> jsval) list"

datatype exn =
    InvalidCharacterError
  | SyntaxError
  | HierarchyRequestError
  | TypeError
  | Thrown jsval

type_synonym ref = nat

text \<open>
  A node of the document is an element or a text node. The document is the list of all
  nodes created so far; a reference is an index into it, and creating a node appends to
  it. The builder touches an element through its tag name, its properties (written by
  \<^verbatim>\<open>el.id = id\<close> and by \<^verbatim>\<open>Object.assign\<close>; kept in insertion order), its class list
  and its children.
\<close>

record element =
  localName :: string
  properties :: "(string \<times> jsval) list"
  classList :: "string list"
  childNodes :: "ref list"
  parentNode :: "ref option"

datatype node = Element element | Text string "ref option"

type_synonym heap = "node list"

type_synonym 'a result = "(exn + 'a) \<times> heap"

type_synonym callback = "ref \<Rightarrow> heap \<Rightarrow> jsval result"

text \<open>
  A trailing argument of \<^verbatim>\<open>$\<close>: a reference to an element of the document, a function,
  or any other value.
\<close>

datatype argument =
    HTMLElement (the_element: ref)
  | Function (the_function: callback)
  | Value (the_value: jsval)

definition instanceof_HTMLElement :: "argument \<Rightarrow> bool" where
  "instanceof_HTMLElement p = (case p of HTMLElement r \<Rightarrow> True | _ \<Rightarrow> False)"

definition typeof :: "argument \<Rightarrow> string" where
  "typeof p =
     (case p of
        HTMLElement r \<Rightarrow> ''object''
      | Function f \<Rightarrow> ''function''
      | Value JSUndefined \<Rightarrow> ''undefined''
      | Value JSNull \<Rightarrow> ''object''
      | Value (JSBoolean b) \<Rightarrow> ''boolean''
      | Value (JSNumber n) \<Rightarrow> ''number''
      | Value (JSString s) \<Rightarrow> ''string''
      | Value (JSObject kvs) \<Rightarrow> ''object'')"

subsection \<open>Reading and updating nodes\<close>

definition is_element :: "heap \<Rightarrow> ref \<Rightarrow> bool" where
  "is_element h r =
     (if r < length h then (case h ! r of Element e \<Rightarrow> True | Text s p \<Rightarrow> False) else False)"

definition get_element :: "heap \<Rightarrow> ref \<Rightarrow> element option" where
  "get_element h r =
     (if r < length h then (case h ! r of Element e \<Rightarrow> Some e | Text s p \<Rightarrow> None) else None)"

definition get_parent :: "heap \<Rightarrow> ref \<Rightarrow> ref option" where
  "get_parent h r =
     (if r < length h then (case h ! r of Element e \<Rightarrow> parentNode e | Text s p \<Rightarrow> p) else None)"

definition update_element :: "ref \<Rightarrow> (element \<Rightarrow> element) \<Rightarrow> heap \<Rightarrow> heap" where
  "update_element r f h =
     (case get_element h r of Some e \<Rightarrow> h[r := Element (f e)] | None \<Rightarrow> h)"

definition set_parent :: "ref \<Rightarrow> ref option \<Rightarrow> heap \<Rightarrow> heap" where
  "set_parent r p h =
     (if r < length h
      then (case h ! r of
              Element e \<Rightarrow> h[r := Element (e\<lparr>parentNode := p\<rparr>)]
            | Text s q \<Rightarrow> h[r := Text s p])
      else h)"

subsection \<open>The host's element factory\<close>

text \<open>
  \<^verbatim>\<open>document.createElement(tag)\<close> throws \<^verbatim>\<open>InvalidCharacterError\<close> unless the name is
  a valid element local name, as the DOM Standard defines it: a name that starts with an
  ASCII letter may continue with anything but ASCII whitespace, NUL, \<^verbatim>\<open>/\<close> and \<^verbatim>\<open>>\<close>;
  any other name starts with \<^verbatim>\<open>:\<close>, \<^verbatim>\<open>_\<close> or a non-ASCII character and continues with
  ASCII letters and digits, \<^verbatim>\<open>-\<close>, \<^verbatim>\<open>.\<close>, \<^verbatim>\<open>:\<close>, \<^verbatim>\<open>_\<close> and non-ASCII characters. (The
  older rule, the XML \<^verbatim>\<open>Name\<close> production, accepts the same names among those the tag
  pattern can capture.) In an HTML document the factory then folds the name to ASCII
  lower case: that is the element's \<^verbatim>\<open>localName\<close>, and its \<^verbatim>\<open>tagName\<close> is the same name
  in ASCII upper case.
\<close>

definition ascii_lower :: "char \<Rightarrow> char" where
  "ascii_lower c =
     (case map_of (zip ''ABCDEFGHIJKLMNOPQRSTUVWXYZ'' ''abcdefghijklmnopqrstuvwxyz'') c of
        Some d \<Rightarrow> d
      | None \<Rightarrow> c)"

definition ascii_upper :: "char \<Rightarrow> char" where
  "ascii_upper c =
     (case map_of (zip ''abcdefghijklmnopqrstuvwxyz'' ''ABCDEFGHIJKLMNOPQRSTUVWXYZ'') c of
        Some d \<Rightarrow> d
      | None \<Rightarrow> c)"

definition ascii_whitespace :: "char \<Rightarrow> bool" where
  "ascii_whitespace c = (of_char c \<in> {9, 10, 12, 13, 32 :: nat})"

definition name_rest_after_alpha :: "char \<Rightarrow> bool" where
  "name_rest_after_alpha c =
     (if ascii_whitespace c then False else of_char c \<notin> {0, 47, 62 :: nat})"

definition name_start_other :: "char \<Rightarrow> bool" where
  "name_start_other c = (c = CHR '':'' \<or> c = CHR ''_'' \<or> (128 :: nat) \<le> of_char c)"

definition name_rest_other :: "char \<Rightarrow> bool" where
  "name_rest_other c =
     (ascii_alpha c \<or> ascii_digit c \<or> c = CHR ''-'' \<or> c = CHR ''.'' \<or> name_start_other c)"

fun valid_element_local_name :: "string \<Rightarrow> bool" where
  "valid_element_local_name [] = False"
| "valid_element_local_name (c # cs) =
     (if ascii_alpha c then list_all name_rest_after_alpha cs
      else name_start_other c \<and> list_all name_rest_other cs)"

definition createElement :: "string \<Rightarrow> heap \<Rightarrow> ref result" where
  "createElement name h =
     (if valid_element_local_name name
      then (Inr (length h),
            h @ [Element \<lparr>localName = map ascii_lower name, properties = [], classList = [],
                           childNodes = [], parentNode = None\<rparr>])
      else (Inl InvalidCharacterError, h))"

definition tagName :: "element \<Rightarrow> string" where
  "tagName e = map ascii_upper (localName e)"

definition createTextNode :: "string \<Rightarrow> heap \<Rightarrow> ref \<times> heap" where
  "createTextNode s h = (length h, h @ [Text s None])"

subsection \<open>Property writes\<close>

text \<open>
  \<^verbatim>\<open>el.id = id\<close> in \<^verbatim>\<open>$\<close> writes a string to the identifier, which the host stores;
  \<open>set_property\<close> is that plain store, a later write to a key replacing the earlier
  value.
\<close>

definition set_property :: "ref \<Rightarrow> string \<Rightarrow> jsval \<Rightarrow> heap \<Rightarrow> heap" where
  "set_property el k v h =
     update_element el (\<lambda>e. e\<lparr>properties := AList.update k v (properties e)\<rparr>) h"

definition get_property :: "heap \<Rightarrow> ref \<Rightarrow> string \<Rightarrow> jsval option" where
  "get_property h el k =
     (case get_element h el of Some e \<Rightarrow> map_of (properties e) k | None \<Rightarrow> None)"

text \<open>
  A write \<^verbatim>\<open>el[k] = v\<close> made by \<^verbatim>\<open>Object.assign\<close> goes through the host. A key that the
  element has only a getter for (\<^verbatim>\<open>tagName\<close>, \<^verbatim>\<open>children\<close> and the like) makes the write
  throw a \<^verbatim>\<open>TypeError\<close>. The identifier and the other attributes that reflect a string
  store the value converted to a string. \<^verbatim>\<open>className\<close> and \<^verbatim>\<open>classList\<close> replace the
  class list by the tokens of the string written. Any other key is stored as given, as
  a key the host knows nothing of is. The setters of further host properties (among them
  \<^verbatim>\<open>textContent\<close>, \<^verbatim>\<open>innerHTML\<close> and \<^verbatim>\<open>style\<close>) are not followed; \<open>stored_as_given\<close>
  below leaves their keys out.
\<close>

fun decimal :: "nat \<Rightarrow> string" where
  "decimal n =
     (if n < 10 then [''0123456789'' ! n]
      else decimal (n div 10) @ [''0123456789'' ! (n mod 10)])"

fun to_string :: "jsval \<Rightarrow> string" where
  "to_string JSUndefined = ''undefined''"
| "to_string JSNull = ''null''"
| "to_string (JSBoolean b) = (if b then ''true'' else ''false'')"
| "to_string (JSNumber n) = (if n < 0 then CHR ''-'' # decimal (nat (- n)) else decimal (nat n))"
| "to_string (JSString s) = s"
| "to_string (JSObject kvs) = ''[object Object]''"

definition read_only_property :: "string \<Rightarrow> bool" where
  "read_only_property k =
     (k \<in> set [''nodeType'', ''nodeName'', ''baseURI'', ''isConnected'', ''ownerDocument'',
                ''parentNode'', ''parentElement'', ''childNodes'', ''firstChild'', ''lastChild'',
                ''previousSibling'', ''nextSibling'', ''namespaceURI'', ''prefix'',
                ''localName'', ''tagName'', ''attributes'', ''shadowRoot'', ''children'',
                ''firstElementChild'', ''lastElementChild'', ''childElementCount'',
                ''previousElementSibling'', ''nextElementSibling'', ''clientTop'',
                ''clientLeft'', ''clientWidth'', ''clientHeight'', ''scrollWidth'',
                ''scrollHeight'', ''dataset'', ''offsetParent'', ''offsetTop'', ''offsetLeft'',
                ''offsetWidth'', ''offsetHeight''])"

definition string_property :: "string \<Rightarrow> bool" where
  "string_property k = (k \<in> set [''id'', ''title'', ''lang'', ''accessKey'', ''slot''])"

definition class_property :: "string \<Rightarrow> bool" where
  "class_property k = (k \<in> set [''className'', ''classList''])"

definition unfollowed_property :: "string \<Rightarrow> bool" where
  "unfollowed_property k =
     (take 2 k = ''on'' \<or> take 4 k = ''aria'' \<or>
      (case k of [] \<Rightarrow> False | c # cs \<Rightarrow> ascii_upper c = c \<and> ascii_lower c \<noteq> c) \<or>
      k \<in> set [''textContent'', ''innerHTML'', ''outerHTML'', ''innerText'', ''outerText'',
                ''nodeValue'', ''style'', ''hidden'', ''inert'', ''dir'', ''translate'',
                ''tabIndex'', ''draggable'', ''spellcheck'', ''writingSuggestions'',
                ''autocapitalize'', ''autocorrect'', ''contentEditable'', ''enterKeyHint'',
                ''inputMode'', ''scrollTop'', ''scrollLeft'', ''autofocus'', ''nonce'',
                ''popover'', ''part'', ''role'', ''elementTiming'', ''align'',
                ''accessKeyLabel'', ''isContentEditable'', ''attributeStyleMap'',
                ''assignedSlot'', ''currentCSSZoom'', ''scrollParent'',
                ''customElementRegistry'', ''__proto__''])"

text \<open>
  Where a write stores the value as given, so that the key reads back that value: the key
  is none of the accessors that every element has (a string attribute takes a string as
  given), and the element is of a kind that has no accessors of its own beyond those.
  Elements of other kinds have more (\<^verbatim>\<open>href\<close> of an anchor, \<^verbatim>\<open>value\<close> of an input), which
  the host treats in its own ways.
\<close>

definition stored_as_given :: "string \<Rightarrow> jsval \<Rightarrow> bool" where
  "stored_as_given k v =
     (if read_only_property k then False
      else if class_property k then False
      else if unfollowed_property k then False
      else if string_property k then (case v of JSString s \<Rightarrow> True | _ \<Rightarrow> False)
      else True)"

definition plain_element :: "string \<Rightarrow> bool" where
  "plain_element name =
     (name \<in> set [''div'', ''p'', ''span'', ''section'', ''article'', ''aside'', ''nav'',
                   ''header'', ''footer'', ''main'', ''b'', ''i'', ''em'', ''strong'',
                   ''small'', ''code''])"

subsection \<open>The class list\<close>

text \<open>
  \<^verbatim>\<open>el.classList.add(...tokens)\<close>: the host first checks the tokens in order (an empty
  token is a \<^verbatim>\<open>SyntaxError\<close>, a token with ASCII whitespace an
  \<^verbatim>\<open>InvalidCharacterError\<close>), then appends each token that the ordered set does not hold
  yet.
\<close>

fun token_error :: "string list \<Rightarrow> exn option" where
  "token_error [] = None"
| "token_error (t # ts) =
     (if t = [] then Some SyntaxError
      else if list_ex ascii_whitespace t then Some InvalidCharacterError
      else token_error ts)"

definition append_token :: "string \<Rightarrow> string list \<Rightarrow> string list" where
  "append_token t ts = (if t \<in> set ts then ts else ts @ [t])"

definition classList_add :: "ref \<Rightarrow> string list \<Rightarrow> heap \<Rightarrow> unit result" where
  "classList_add el tokens h =
     (case token_error tokens of
        Some e \<Rightarrow> (Inl e, h)
      | None \<Rightarrow>
          (Inr (), update_element el (\<lambda>e. e\<lparr>classList := fold append_token tokens (classList e)\<rparr>) h))"

subsection \<open>Appending a child\<close>

text \<open>
  \<^verbatim>\<open>parent.appendChild(child)\<close>: the host refuses (\<^verbatim>\<open>HierarchyRequestError\<close>) a child
  that is the parent itself or one of its ancestors; otherwise it removes the child from
  the parent it has, if any, and makes it the last child of the new parent. The walk up
  the parent links takes as many steps as the document has nodes.
\<close>

fun inclusive_ancestor :: "nat \<Rightarrow> heap \<Rightarrow> ref \<Rightarrow> ref \<Rightarrow> bool" where
  "inclusive_ancestor 0 h a n = (a = n)"
| "inclusive_ancestor (Suc k) h a n =
     (if a = n then True
      else (case get_parent h n of None \<Rightarrow> False | Some p \<Rightarrow> inclusive_ancestor k h a p))"

definition remove_from_parent :: "ref \<Rightarrow> heap \<Rightarrow> heap" where
  "remove_from_parent c h =
     (case get_parent h c of
        None \<Rightarrow> h
      | Some p \<Rightarrow>
          set_parent c None
            (update_element p (\<lambda>e. e\<lparr>childNodes := removeAll c (childNodes e)\<rparr>) h))"

definition appendChild :: "ref \<Rightarrow> ref \<Rightarrow> heap \<Rightarrow> unit result" where
  "appendChild parent child h =
     (if inclusive_ancestor (length h) h child parent then (Inl HierarchyRequestError, h)
      else (Inr (),
            set_parent child (Some parent)
              (update_element parent (\<lambda>e. e\<lparr>childNodes := childNodes e @ [child]\<rparr>)
                 (remove_from_parent child h))))"

subsection \<open>Writes through the host\<close>

text \<open>
  The tokens of a class string are its maximal runs without ASCII whitespace.
\<close>

fun class_tokens :: "string \<Rightarrow> string \<Rightarrow> string list" where
  "class_tokens cur [] = (if cur = [] then [] else [cur])"
| "class_tokens cur (c # cs) =
     (if ascii_whitespace c
      then (if cur = [] then class_tokens [] cs else cur # class_tokens [] cs)
      else class_tokens (cur @ [c]) cs)"

definition put_element :: "string \<Rightarrow> jsval \<Rightarrow> element \<Rightarrow> exn + element" where
  "put_element k v e =
     (if read_only_property k then Inl TypeError
      else if string_property k
        then Inr (e\<lparr>properties := AList.update k (JSString (to_string v)) (properties e)\<rparr>)
      else if class_property k
        then Inr (e\<lparr>classList := fold append_token (class_tokens [] (to_string v)) []\<rparr>)
      else Inr (e\<lparr>properties := AList.update k v (properties e)\<rparr>))"

definition put_property :: "ref \<Rightarrow> string \<Rightarrow> jsval \<Rightarrow> heap \<Rightarrow> unit result" where
  "put_property el k v h =
     (case get_element h el of
        None \<Rightarrow> (Inr (), h)
      | Some e \<Rightarrow>
          (case put_element k v e of
             Inl x \<Rightarrow> (Inl x, h)
           | Inr e' \<Rightarrow> (Inr (), h[el := Element e'])))"

subsection \<open>Object.assign\<close>

text \<open>
  \<^verbatim>\<open>Object.assign(el, source)\<close> skips a source that is \<^verbatim>\<open>undefined\<close> or \<^verbatim>\<open>null\<close>; any
  other source is converted to an object, and each of its own enumerable properties is
  written to the element, in order (for an object, the order of the list). A boolean or a
  number has none; a string has one per character, keyed by the decimal index; an object
  has its entries. A write that throws ends the copying, and the writes made before it
  stay.
\<close>

fun own_enumerable :: "jsval \<Rightarrow> (string \<times> jsval) list" where
  "own_enumerable JSUndefined = []"
| "own_enumerable JSNull = []"
| "own_enumerable (JSBoolean b) = []"
| "own_enumerable (JSNumber n) = []"
| "own_enumerable (JSString s) = map (\<lambda>(i, c). (decimal i, JSString [c])) (enumerate 0 s)"
| "own_enumerable (JSObject kvs) = kvs"

fun assign_entries :: "ref \<Rightarrow> (string \<times> jsval) list \<Rightarrow> heap \<Rightarrow> unit result" where
  "assign_entries el [] h = (Inr (), h)"
| "assign_entries el ((k, v) # kvs) h =
     (case put_property el k v h of
        (Inl x, h') \<Rightarrow> (Inl x, h')
      | (Inr u, h') \<Rightarrow> assign_entries el kvs h')"

definition Object_assign :: "ref \<Rightarrow> jsval \<Rightarrow> heap \<Rightarrow> unit result" where
  "Object_assign el source h = assign_entries el (own_enumerable source) h"

section \<open>The builder\<close>

text \<open>
  \<^verbatim>\<open>rest.forEach(f)\<close> calls \<^verbatim>\<open>f\<close> on each argument in order; an exception ends the
  loop and leaves the document as it is at that point.
\<close>

fun forEach :: "(argument \<Rightarrow> heap \<Rightarrow> unit result) \<Rightarrow> argument list \<Rightarrow> heap \<Rightarrow> unit result" where
  "forEach f [] h = (Inr (), h)"
| "forEach f (p # ps) h =
     (case f p h of (Inl e, h') \<Rightarrow> (Inl e, h') | (Inr u, h') \<Rightarrow> forEach f ps h')"

text \<open>
  The body of the loop:
  \<^verbatim>\<open>
    if (prop instanceof HTMLElement) {
      el.appendChild(prop);
    } else if (typeof prop === 'function') {
      prop(el);
    } else if (typeof prop === 'string') {
      el.appendChild(document.createTextNode(prop));
    } else {
      Object.assign(el, prop);
    }
  \<close>
\<close>

definition the_string :: "argument \<Rightarrow> string" where
  "the_string p = (case the_value p of JSString s \<Rightarrow> s | _ \<Rightarrow> [])"

definition applyProp :: "ref \<Rightarrow> argument \<Rightarrow> heap \<Rightarrow> unit result" where
  "applyProp el prop h =
     (if instanceof_HTMLElement prop then appendChild el (the_element prop) h
      else if typeof prop = ''function'' then
        (case the_function prop el h of
           (Inl e, h') \<Rightarrow> (Inl e, h')
         | (Inr v, h') \<Rightarrow> (Inr (), h'))
      else if typeof prop = ''string'' then
        (case createTextNode (the_string prop) h of (t, h') \<Rightarrow> appendChild el t h')
      else Object_assign el (the_value prop) h)"

text \<open>
  The exported function \<^verbatim>\<open>$\<close>, with the selector and the rest of the arguments taken
  apart as its first line does. It returns the reference of the new element, or the
  exception that ended it, together with the document. Its second line,
  \<^verbatim>\<open>const tag = selector.match(patterns.tag)?.[1] ?? 'div'\<close>, is \<open>tag_name\<close>.
\<close>

definition tag_name :: "string \<Rightarrow> string" where
  "tag_name selector = (case match_tag selector of Some t \<Rightarrow> t | None \<Rightarrow> ''div'')"

definition dollar :: "string \<Rightarrow> argument list \<Rightarrow> heap \<Rightarrow> ref result" where
  "dollar selector rest h =
     (let tag = tag_name selector in
      case createElement tag h of
        (Inl e, h0) \<Rightarrow> (Inl e, h0)
      | (Inr el, h0) \<Rightarrow>
          (let id = match_id selector;
               h1 = (case id of
                       None \<Rightarrow> h0
                     | Some i \<Rightarrow> if i = [] then h0 else set_property el ''id'' (JSString i) h0);
               classes = map_option (map (drop 1)) (match_class selector)
           in case (case classes of
                      None \<Rightarrow> (Inr (), h1)
                    | Some cs \<Rightarrow> classList_add el cs h1) of
                (Inl e, h2) \<Rightarrow> (Inl e, h2)
              | (Inr u, h2) \<Rightarrow>
                  (case forEach (applyProp el) rest h2 of
                     (Inl e, h3) \<Rightarrow> (Inl e, h3)
                   | (Inr u, h3) \<Rightarrow> (Inr el, h3))))"

section \<open>Notions the properties are stated with\<close>

text \<open>
  A selector has a marker \<open>m\<close> (\<^verbatim>\<open>#\<close> for an identifier, \<^verbatim>\<open>.\<close> for a class) where \<open>m\<close>
  stands directly before a character of the class.
\<close>

fun has_marker :: "char \<Rightarrow> string \<Rightarrow> bool" where
  "has_marker m [] = False"
| "has_marker m [c] = False"
| "has_marker m (c # d # cs) = (if c = m \<and> wordchar d then True else has_marker m (d # cs))"

text \<open>
  The element as \<^verbatim>\<open>$\<close> has set it up when it turns to the trailing arguments: the tag,
  the identifier if the selector has one, and the classes of the selector.
\<close>

definition selector_element :: "string \<Rightarrow> element" where
  "selector_element selector =
     \<lparr>localName = map ascii_lower (tag_name selector),
      properties = (case match_id selector of None \<Rightarrow> [] | Some i \<Rightarrow> [(''id'', JSString i)]),
      classList = fold append_token (map (drop 1) (class_matches selector)) [],
      childNodes = [],
      parentNode = None\<rparr>"

text \<open>
  The structure below a node, read off the document: what two elements have in common
  when they are equivalent but not the same node. The first argument bounds the depth.
\<close>

datatype tree =
    Missing
  | TextTree string
  | ElementTree string "(string \<times> jsval) list" "string list" "tree list"

fun snapshot :: "nat \<Rightarrow> heap \<Rightarrow> ref \<Rightarrow> tree" where
  "snapshot 0 h r = Missing"
| "snapshot (Suc n) h r =
     (if r < length h
      then (case h ! r of
              Text s p \<Rightarrow> TextTree s
            | Element e \<Rightarrow>
                ElementTree (localName e) (properties e) (classList e)
                  (map (snapshot n h) (childNodes e)))
      else Missing)"

text \<open>
  What one call has made, seen from the call: its nodes listed with the new element
  first and every reference counted from that element. \<open>placed h seg\<close> is the document
  that holds these nodes after the nodes of \<open>h\<close>, where the references are the counted
  ones moved up by the size of \<open>h\<close>. The nodes of a call refer only to each other
  (\<open>closed\<close>), and the first of them is the new element.
\<close>

definition shift_node :: "nat \<Rightarrow> node \<Rightarrow> node" where
  "shift_node b n =
     (case n of
        Element e \<Rightarrow>
          Element (e\<lparr>childNodes := map ((+) b) (childNodes e),
                     parentNode := map_option ((+) b) (parentNode e)\<rparr>)
      | Text s p \<Rightarrow> Text s (map_option ((+) b) p))"

definition placed :: "heap \<Rightarrow> heap \<Rightarrow> heap" where
  "placed h seg = h @ map (shift_node (length h)) seg"

definition refs_below :: "nat \<Rightarrow> node \<Rightarrow> bool" where
  "refs_below m n =
     (case n of
        Element e \<Rightarrow>
          list_all (\<lambda>c. c < m) (childNodes e) \<and>
          (case parentNode e of None \<Rightarrow> True | Some p \<Rightarrow> p < m)
      | Text s p \<Rightarrow> (case p of None \<Rightarrow> True | Some q \<Rightarrow> q < m))"

definition closed :: "heap \<Rightarrow> bool" where
  "closed seg = list_all (refs_below (length seg)) seg"

definition own_nodes :: "heap \<Rightarrow> bool" where
  "own_nodes seg = (closed seg \<and> is_element seg 0)"

text \<open>
  A callback that has no external effects and depends on nothing outside the call: what
  it returns or throws, and what it makes of the nodes of the call, is a function of
  those nodes alone, whatever document they are placed after; that document it leaves
  as it is.
\<close>

definition local_callback :: "callback \<Rightarrow> bool" where
  "local_callback f =
     (\<exists>g. \<forall>h seg. own_nodes seg \<longrightarrow>
        f (length h) (placed h seg) = (fst (g seg), placed h (snd (g seg))) \<and>
        own_nodes (snd (g seg)))"

definition self_contained :: "argument \<Rightarrow> bool" where
  "self_contained p =
     (case p of HTMLElement c \<Rightarrow> False | Function f \<Rightarrow> local_callback f | Value v \<Rightarrow> True)"

text \<open>
  Two callbacks to try the notion on. The first appends a text node of its own to the
  element it is given. The second writes the size of the document to a property of that
  element: it changes nothing else, but what it writes depends on the document.
\<close>

definition append_note :: callback where
  "append_note el h =
     (case appendChild el (length h) (h @ [Text ''note'' None]) of
        (Inl x, h') \<Rightarrow> (Inl x, h')
      | (Inr u, h') \<Rightarrow> (Inr JSUndefined, h'))"

definition stamp_size :: callback where
  "stamp_size el h = (Inr JSUndefined, set_property el ''n'' (JSNumber (int (length h))) h)"

text \<open>
  An argument that leaves the identifier of the element alone: an element or a string
  (they become children), a value without an own enumerable property \<^verbatim>\<open>id\<close>, or a
  callable that leaves the \<^verbatim>\<open>id\<close> of the element it is given as it finds it.
\<close>

definition keeps_id :: "argument \<Rightarrow> bool" where
  "keeps_id p =
     (case p of
        HTMLElement c \<Rightarrow> True
      | Function f \<Rightarrow>
          (\<forall>el h. get_property (snd (f el h)) el ''id'' = get_property h el ''id'')
      | Value (JSString s) \<Rightarrow> True
      | Value v \<Rightarrow> ''id'' \<notin> fst ` set (own_enumerable v))"

text \<open>
  In a document as the host keeps it, a parent link points to a node of the document.
\<close>

definition parents_in_range :: "heap \<Rightarrow> bool" where
  "parents_in_range h =
     list_all (\<lambda>r. case get_parent h r of None \<Rightarrow> True | Some p \<Rightarrow> p < length h)
       [0 ..< length h]"

section \<open>Lemmas\<close>

text \<open>
  The equation of \<open>decimal\<close> calls itself, so it is unfolded only where a number is
  at hand.
\<close>

declare decimal.simps [simp del]

subsection \<open>The patterns\<close>

lemma wordchar_not_marker [simp]:
  "wordchar CHR ''#'' = False" "wordchar CHR ''.'' = False"
  by (simp_all add: wordchar_def ascii_alpha_def ascii_digit_def)

lemma wordchar_not_whitespace: "wordchar c \<Longrightarrow> \<not> ascii_whitespace c"
  by (auto simp: wordchar_def ascii_alpha_def ascii_digit_def ascii_whitespace_def Let_def)

lemma takeWhile_run:
  "list_all wordchar xs \<Longrightarrow> \<not> wordchar c \<Longrightarrow> takeWhile wordchar (xs @ c # ys) = xs"
  by (induction xs) auto

lemma takeWhile_whole_run: "list_all wordchar xs \<Longrightarrow> takeWhile wordchar xs = xs"
  by (induction xs) auto

lemma dropWhile_run:
  "list_all wordchar xs \<Longrightarrow> \<not> wordchar c \<Longrightarrow> dropWhile wordchar (xs @ c # ys) = c # ys"
  by (induction xs) auto

lemma dropWhile_whole_run: "list_all wordchar xs \<Longrightarrow> dropWhile wordchar xs = []"
  by (induction xs) auto

lemma list_all_takeWhile: "list_all P (takeWhile P xs)"
  by (induction xs) auto

lemma match_id_skip_run: "list_all wordchar xs \<Longrightarrow> match_id (xs @ ys) = match_id ys"
  by (induction xs) auto

lemma match_id_nonempty: "match_id s = Some i \<Longrightarrow> i \<noteq> []"
  by (induction s) (auto split: if_splits)

lemma class_matches_skip_run:
  "list_all wordchar xs \<Longrightarrow> class_matches (xs @ ys) = class_matches ys"
  by (induction xs) auto

lemma class_matches_runs:
  "list_all (\<lambda>t. t \<noteq> [] \<and> list_all wordchar t) (map (drop 1) (class_matches s))"
  by (induction s rule: class_matches.induct) (auto simp: list_all_takeWhile)

lemma token_error_runs:
  "list_all (\<lambda>t. t \<noteq> [] \<and> list_all wordchar t) ts \<Longrightarrow> token_error ts = None"
  by (induction ts) (auto simp: list_ex_iff list_all_iff wordchar_not_whitespace)

lemma token_error_class_matches: "token_error (map (drop 1) (class_matches s)) = None"
  by (rule token_error_runs) (rule class_matches_runs)

lemma no_marker_match_id: "\<not> has_marker CHR ''#'' s \<Longrightarrow> match_id s = None"
  by (induction "CHR ''#''" s rule: has_marker.induct) (auto split: if_splits)

lemma no_marker_class_matches: "\<not> has_marker CHR ''.'' s \<Longrightarrow> class_matches s = []"
  by (induction "CHR ''.''" s rule: has_marker.induct) (auto split: if_splits)

lemma tag_name_default: "takeWhile wordchar selector = [] \<Longrightarrow> tag_name selector = ''div''"
  by (simp add: tag_name_def match_tag_def)

lemma valid_div: "valid_element_local_name ''div''"
  by (simp add: ascii_alpha_def name_rest_after_alpha_def ascii_whitespace_def)

subsection \<open>The document\<close>

lemma get_element_fresh [simp]: "get_element (h @ [Element e]) (length h) = Some e"
  by (simp add: get_element_def)

lemma update_element_fresh [simp]:
  "update_element (length h) f (h @ [Element e]) = h @ [Element (f e)]"
  by (simp add: update_element_def)

lemma set_property_fresh [simp]:
  "set_property (length h) k v (h @ [Element e]) =
     h @ [Element (e\<lparr>properties := AList.update k v (properties e)\<rparr>)]"
  by (simp add: set_property_def)

subsection \<open>The builder\<close>

lemma forEach_append:
  "forEach f (ps @ qs) h =
     (case forEach f ps h of (Inl e, h') \<Rightarrow> (Inl e, h') | (Inr u, h') \<Rightarrow> forEach f qs h')"
  by (induction ps arbitrary: h) (auto split: prod.splits sum.splits)

lemma dollar_eq:
  "dollar selector rest h =
     (if valid_element_local_name (tag_name selector)
      then (case forEach (applyProp (length h)) rest
                   (h @ [Element (selector_element selector)]) of
              (Inl e, h3) \<Rightarrow> (Inl e, h3)
            | (Inr u, h3) \<Rightarrow> (Inr (length h), h3))
      else (Inl InvalidCharacterError, h))"
proof (cases "valid_element_local_name (tag_name selector)")
  case False
  then show ?thesis by (simp add: dollar_def createElement_def)
next
  case True
  let ?e0 = "\<lparr>localName = map ascii_lower (tag_name selector), properties = [], classList = [],
               childNodes = [], parentNode = None\<rparr>"
  let ?h0 = "h @ [Element ?e0]"
  have idstep: "(case match_id selector of
             None \<Rightarrow> ?h0
           | Some i \<Rightarrow> if i = [] then ?h0 else set_property (length h) ''id'' (JSString i) ?h0)
        = h @ [Element (?e0\<lparr>properties := (case match_id selector of None \<Rightarrow> []
                                               | Some i \<Rightarrow> [(''id'', JSString i)])\<rparr>)]"
    by (auto split: option.splits dest: match_id_nonempty)
  show ?thesis
  proof (cases "class_matches selector")
    case Nil
    then show ?thesis
      using True
      by (simp add: dollar_def createElement_def idstep match_class_def selector_element_def)
  next
    case (Cons m ms)
    have te: "token_error (drop (Suc 0) m # map (drop (Suc 0)) ms) = None"
      using token_error_class_matches[of selector] unfolding Cons
      by (simp del: token_error.simps)
    show ?thesis
      using True Cons
      by (simp add: dollar_def createElement_def idstep match_class_def selector_element_def
            classList_add_def te Let_def del: token_error.simps)
  qed
qed

lemma applyProp_Function:
  "applyProp el (Function f) h =
     (case f el h of (Inl e, h') \<Rightarrow> (Inl e, h') | (Inr v, h') \<Rightarrow> (Inr (), h'))"
  by (simp add: applyProp_def instanceof_HTMLElement_def typeof_def)

lemma applyProp_HTMLElement: "applyProp el (HTMLElement c) h = appendChild el c h"
  by (simp add: applyProp_def instanceof_HTMLElement_def)

lemma applyProp_JSString:
  "applyProp el (Value (JSString s)) h = appendChild el (length h) (h @ [Text s None])"
  by (simp add: applyProp_def instanceof_HTMLElement_def typeof_def the_string_def
        createTextNode_def)

lemma applyProp_assign:
  "typeof (Value v) \<noteq> ''string'' \<Longrightarrow> applyProp el (Value v) h = Object_assign el v h"
  by (cases v) (simp_all add: applyProp_def instanceof_HTMLElement_def typeof_def)

lemma applyProp_no_properties:
  "typeof (Value v) \<noteq> ''string'' \<Longrightarrow> own_enumerable v = [] \<Longrightarrow>
     applyProp el (Value v) h = (Inr (), h)"
  by (simp add: applyProp_assign Object_assign_def)

lemma forEach_skip:
  "(\<And>h'. f p h' = (Inr (), h')) \<Longrightarrow> forEach f (xs @ p # ys) h = forEach f (xs @ ys) h"
  by (simp add: forEach_append split: prod.splits sum.splits)

lemma dollar_skip:
  assumes "\<And>el h'. applyProp el p h' = (Inr (), h')"
  shows "dollar selector (xs @ p # ys) h = dollar selector (xs @ ys) h"
  by (simp add: dollar_eq forEach_skip[of "applyProp (length h)" p, OF assms])

text \<open>The definitions a call on concrete arguments is evaluated with.\<close>

lemmas eval_defs =
  decimal.simps dollar_def tag_name_def match_tag_def match_class_def createElement_def ascii_lower_def
  put_property_def put_element_def read_only_property_def string_property_def
  class_property_def
  wordchar_def ascii_alpha_def ascii_digit_def name_rest_after_alpha_def ascii_whitespace_def
  name_start_other_def name_rest_other_def
  classList_add_def append_token_def applyProp_def instanceof_HTMLElement_def typeof_def
  the_string_def createTextNode_def appendChild_def remove_from_parent_def get_parent_def
  set_parent_def update_element_def get_element_def set_property_def Object_assign_def

subsection \<open>Nodes of the document\<close>

lemma is_element_get: "is_element h r = (get_element h r \<noteq> None)"
  by (auto simp: is_element_def get_element_def split: node.splits)

lemma length_update_element [simp]: "length (update_element r f h) = length h"
  by (simp add: update_element_def split: option.splits)

lemma length_set_parent [simp]: "length (set_parent r p h) = length h"
  by (simp add: set_parent_def split: node.splits)

lemma get_element_update_element:
  "get_element (update_element r f h) r' =
     (if r' = r then map_option f (get_element h r) else get_element h r')"
  by (auto simp: update_element_def get_element_def split: option.splits node.splits if_splits)

lemma get_element_set_parent:
  "get_element (set_parent r p h) r' =
     (if r' = r then map_option (\<lambda>e. e\<lparr>parentNode := p\<rparr>) (get_element h r)
      else get_element h r')"
  by (auto simp: set_parent_def get_element_def split: node.splits)

lemma get_element_append_Text:
  "get_element (h @ [Text s p]) r = get_element h r"
  by (auto simp: get_element_def nth_append)

lemma get_element_remove_from_parent:
  "get_element h r = Some e \<Longrightarrow>
     \<exists>e'. get_element (remove_from_parent c h) r = Some e' \<and>
          localName e' = localName e \<and> properties e' = properties e \<and>
          classList e' = classList e"
  by (auto simp: remove_from_parent_def get_element_update_element get_element_set_parent
           split: option.splits)

lemma inclusive_ancestor_self: "inclusive_ancestor n h a a"
  by (cases n) simp_all

lemma appendChild_last_child:
  assumes "get_element h el = Some e" and "appendChild el c h = (Inr (), h')"
  shows "\<exists>e' cs. get_element h' el = Some e' \<and> childNodes e' = cs @ [c] \<and>
           localName e' = localName e \<and> properties e' = properties e \<and>
           classList e' = classList e"
proof -
  from assms(2) have na: "\<not> inclusive_ancestor (length h) h c el"
    and h': "h' = set_parent c (Some el)
              (update_element el (\<lambda>e. e\<lparr>childNodes := childNodes e @ [c]\<rparr>)
                 (remove_from_parent c h))"
    by (auto simp: appendChild_def split: if_splits)
  from na have ne: "c \<noteq> el"
    using inclusive_ancestor_self by auto
  from get_element_remove_from_parent[OF assms(1), of c]
  obtain e1 where e1: "get_element (remove_from_parent c h) el = Some e1"
    "localName e1 = localName e" "properties e1 = properties e" "classList e1 = classList e"
    by blast
  show ?thesis
    using ne e1 by (simp add: h' get_element_set_parent get_element_update_element)
qed

lemma get_property_appendChild:
  assumes "appendChild el c h = (Inr (), h')"
  shows "get_property h' r k = get_property h r k"
proof -
  from assms have h': "h' = set_parent c (Some el)
              (update_element el (\<lambda>e. e\<lparr>childNodes := childNodes e @ [c]\<rparr>)
                 (remove_from_parent c h))"
    by (auto simp: appendChild_def split: if_splits)
  show ?thesis
    by (auto simp: h' get_property_def get_element_set_parent get_element_update_element
          remove_from_parent_def split: option.splits)
qed

lemma get_property_set_property:
  "get_property (set_property el k v h) r k' =
     (if r = el \<and> k' = k \<and> is_element h el then Some v else get_property h r k')"
  by (auto simp: get_property_def set_property_def get_element_update_element is_element_get
        update_conv' split: option.splits)

lemma is_element_set_property [simp]: "is_element (set_property el k v h) r = is_element h r"
  by (auto simp: is_element_get set_property_def get_element_update_element)

lemma get_element_put_property:
  "put_property el k v h = (Inr u, h') \<Longrightarrow> get_element h el = Some e \<Longrightarrow>
     \<exists>e'. put_element k v e = Inr e' \<and> h' = h[el := Element e']"
  by (auto simp: put_property_def split: sum.splits)

lemma is_element_put_property:
  "put_property el k v h = (r, h') \<Longrightarrow> is_element h' x = is_element h x"
  by (auto simp: put_property_def is_element_def get_element_def nth_list_update
           split: option.splits sum.splits if_splits node.splits)

lemma get_property_put_other:
  "put_property el k v h = (r, h') \<Longrightarrow> k \<noteq> k' \<Longrightarrow>
     get_property h' x k' = get_property h x k'"
  by (auto simp: put_property_def put_element_def get_property_def get_element_def
                 nth_list_update update_conv'
           split: option.splits sum.splits if_splits node.splits)

lemma get_property_put_id:
  "put_property el ''id'' (JSString x) h = (Inr u, h') \<Longrightarrow> is_element h el \<Longrightarrow>
     get_property h' el ''id'' = Some (JSString x)"
  by (auto simp: put_property_def put_element_def get_property_def get_element_def
                 is_element_def read_only_property_def string_property_def update_conv'
           split: option.splits sum.splits if_splits node.splits)

lemma get_property_assign_other:
  "k \<notin> fst ` set kvs \<Longrightarrow> assign_entries el kvs h = (r, h') \<Longrightarrow>
     get_property h' x k = get_property h x k"
proof (induction kvs arbitrary: h)
  case Nil
  then show ?case by simp
next
  case (Cons kv kvs)
  obtain k0 v0 where kv: "kv = (k0, v0)" by (cases kv)
  obtain r1 h1 where p: "put_property el k0 v0 h = (r1, h1)"
    by (cases "put_property el k0 v0 h")
  from Cons.prems(1) kv have ne: "k0 \<noteq> k" and nin: "k \<notin> fst ` set kvs" by auto
  have g: "get_property h1 x k = get_property h x k"
    using get_property_put_other[OF p ne] .
  show ?case
  proof (cases r1)
    case (Inl e)
    with Cons.prems(2) kv p have "h' = h1" by simp
    with g show ?thesis by simp
  next
    case (Inr u)
    with Cons.prems(2) kv p have "assign_entries el kvs h1 = (r, h')" by simp
    from Cons.IH[OF nin this] g show ?thesis by simp
  qed
qed

lemma get_property_assign:
  "is_element h el \<Longrightarrow> distinct (map fst kvs) \<Longrightarrow> map_of kvs ''id'' = Some (JSString x) \<Longrightarrow>
   assign_entries el kvs h = (Inr u, h') \<Longrightarrow>
     get_property h' el ''id'' = Some (JSString x)"
proof (induction kvs arbitrary: h)
  case Nil
  then show ?case by simp
next
  case (Cons kv kvs)
  obtain k0 v0 where kv: "kv = (k0, v0)" by (cases kv)
  from Cons.prems(4) kv obtain u1 h1 where
    p: "put_property el k0 v0 h = (Inr u1, h1)" and a: "assign_entries el kvs h1 = (Inr u, h')"
    by (auto split: prod.splits sum.splits)
  have e1: "is_element h1 el"
    using is_element_put_property[OF p] Cons.prems(1) by simp
  show ?case
  proof (cases "k0 = ''id''")
    case True
    with Cons.prems kv have v: "v0 = JSString x" and nin: "''id'' \<notin> fst ` set kvs" by auto
    from p True v have "get_property h1 el ''id'' = Some (JSString x)"
      using get_property_put_id Cons.prems(1) by blast
    with get_property_assign_other[OF nin a] show ?thesis by simp
  next
    case False
    with Cons.prems kv have "map_of kvs ''id'' = Some (JSString x)" "distinct (map fst kvs)"
      by auto
    from Cons.IH[OF e1 this(2) this(1) a] show ?thesis .
  qed
qed

subsection \<open>The steps of the loop\<close>

lemma applyProp_keeps_id:
  assumes "keeps_id p" and "applyProp el p h = (Inr u, h')"
  shows "get_property h' el ''id'' = get_property h el ''id''"
proof (cases p)
  case (HTMLElement c)
  with assms(2) show ?thesis
    by (simp add: applyProp_HTMLElement get_property_appendChild)
next
  case (Function f)
  with assms(1) have "get_property (snd (f el h)) el ''id'' = get_property h el ''id''"
    by (simp add: keeps_id_def)
  moreover from assms(2) have "snd (f el h) = h'"
    by (auto simp: Function applyProp_Function split: prod.splits sum.splits)
  ultimately show ?thesis by simp
next
  case (Value v)
  show ?thesis
  proof (cases "typeof (Value v) = ''string''")
    case True
    then obtain s where s: "v = JSString s"
      by (cases v) (simp_all add: typeof_def)
    from assms(2) have "appendChild el (length h) (h @ [Text s None]) = (Inr (), h')"
      by (simp add: Value s applyProp_JSString)
    then have "get_property h' el ''id'' = get_property (h @ [Text s None]) el ''id''"
      by (rule get_property_appendChild)
    then show ?thesis
      by (simp add: get_property_def get_element_append_Text)
  next
    case False
    with assms(2) have h': "assign_entries el (own_enumerable v) h = (Inr u, h')"
      by (simp add: Value applyProp_assign Object_assign_def)
    from False assms(1) have "''id'' \<notin> fst ` set (own_enumerable v)"
      by (cases v) (simp_all add: Value keeps_id_def typeof_def)
    then show ?thesis
      using h' by (rule get_property_assign_other)
  qed
qed

lemma forEach_keeps_id:
  "list_all keeps_id ps \<Longrightarrow> forEach (applyProp el) ps h = (Inr u, h') \<Longrightarrow>
     get_property h' el ''id'' = get_property h el ''id''"
proof (induction ps arbitrary: h)
  case Nil
  then show ?case by simp
next
  case (Cons p ps)
  from Cons.prems(2) obtain u1 h1 where
    s1: "applyProp el p h = (Inr u1, h1)" and s2: "forEach (applyProp el) ps h1 = (Inr u, h')"
    by (auto split: prod.splits sum.splits)
  from Cons.prems(1) have "keeps_id p" "list_all keeps_id ps" by simp_all
  then show ?case
    using Cons.IH[OF _ s2] applyProp_keeps_id[OF _ s1] by simp
qed

lemma dollar_snoc:
  "dollar selector (ps @ [p]) h =
     (case dollar selector ps h of
        (Inl e, h1) \<Rightarrow> (Inl e, h1)
      | (Inr el, h1) \<Rightarrow>
          (case applyProp el p h1 of
             (Inl e, h2) \<Rightarrow> (Inl e, h2)
           | (Inr u, h2) \<Rightarrow> (Inr el, h2)))"
  by (simp add: dollar_eq forEach_append split: prod.splits sum.splits)

lemma applyProp_cases:
  "applyProp el p h =
     (case p of
        HTMLElement c \<Rightarrow> appendChild el c h
      | Function f \<Rightarrow>
          (case f el h of (Inl e, h') \<Rightarrow> (Inl e, h') | (Inr v, h') \<Rightarrow> (Inr (), h'))
      | Value (JSString s) \<Rightarrow> appendChild el (length h) (h @ [Text s None])
      | Value v \<Rightarrow> Object_assign el v h)"
proof (cases p)
  case (Value v)
  then show ?thesis
    by (cases v) (simp_all add: applyProp_JSString applyProp_assign typeof_def)
qed (simp_all add: applyProp_HTMLElement applyProp_Function)

lemma parents_in_rangeD:
  "parents_in_range h \<Longrightarrow> get_parent h n = Some p \<Longrightarrow> p < length h"
proof -
  assume a: "parents_in_range h" and b: "get_parent h n = Some p"
  from b have "n < length h"
    by (simp add: get_parent_def split: if_splits)
  with a b show ?thesis
    by (auto simp: parents_in_range_def list_all_iff split: option.splits)
qed

lemma get_parent_append_old: "n < length h \<Longrightarrow> get_parent (h @ [x]) n = get_parent h n"
  by (simp add: get_parent_def nth_append)

lemma no_new_ancestor:
  "parents_in_range h \<Longrightarrow> n < length h \<Longrightarrow>
     \<not> inclusive_ancestor k (h @ [x]) (length h) n"
proof (induction k arbitrary: n)
  case 0
  then show ?case by simp
next
  case (Suc k)
  show ?case
  proof (cases "get_parent h n")
    case None
    with Suc.prems show ?thesis by (simp add: get_parent_append_old)
  next
    case (Some p)
    with Suc.prems have "p < length h" by (auto dest: parents_in_rangeD)
    with Suc.IH[OF Suc.prems(1) this] Suc.prems Some show ?thesis
      by (simp add: get_parent_append_old)
  qed
qed

lemma appendChild_new_text_result:
  assumes e: "get_element h el = Some e" and wf: "parents_in_range h"
  shows "appendChild el (length h) (h @ [Text s None]) =
           (Inr (), h[el := Element (e\<lparr>childNodes := childNodes e @ [length h]\<rparr>)]
                      @ [Text s (Some el)])"
proof -
  from e have lt: "el < length h"
    by (simp add: get_element_def split: if_splits)
  let ?H = "h @ [Text s None]"
  have na: "\<not> inclusive_ancestor (length ?H) ?H (length h) el"
    using no_new_ancestor[OF wf lt] .
  have gt: "get_parent ?H (length h) = None"
    by (simp add: get_parent_def)
  have ge: "get_element ?H el = Some e"
    using e by (simp add: get_element_append_Text)
  have "set_parent (length h) (Some el)
          (update_element el (\<lambda>e. e\<lparr>childNodes := childNodes e @ [length h]\<rparr>) ?H) =
        h[el := Element (e\<lparr>childNodes := childNodes e @ [length h]\<rparr>)] @ [Text s (Some el)]"
    using lt by (simp add: update_element_def ge set_parent_def list_update_append nth_append)
  then show ?thesis
    using na gt by (simp add: appendChild_def remove_from_parent_def)
qed

lemma appendChild_element_result:
  assumes "get_element h el = Some e" and "\<not> inclusive_ancestor (length h) h c el"
  shows "\<exists>h' e' cs. appendChild el c h = (Inr (), h') \<and> get_element h' el = Some e' \<and>
           childNodes e' = cs @ [c] \<and> localName e' = localName e \<and>
           properties e' = properties e \<and> classList e' = classList e"
proof -
  from assms(2) obtain h' where a: "appendChild el c h = (Inr (), h')"
    by (simp add: appendChild_def)
  from appendChild_last_child[OF assms(1) a] a show ?thesis by blast
qed

subsection \<open>Bags of stored keys\<close>

lemma stored_as_givenD:
  "stored_as_given k v \<Longrightarrow>
     \<not> read_only_property k \<and> \<not> class_property k \<and>
     (string_property k \<longrightarrow> (\<exists>s. v = JSString s))"
  by (cases "read_only_property k"; cases "class_property k"; cases "unfollowed_property k";
      cases "string_property k"; cases v) (simp_all add: stored_as_given_def)

lemma put_property_stored:
  assumes "get_element h el = Some e" and "stored_as_given k v"
  shows "put_property el k v h =
           (Inr (), h[el := Element (e\<lparr>properties := AList.update k v (properties e)\<rparr>)])"
proof -
  from stored_as_givenD[OF assms(2)] have
    a: "\<not> read_only_property k" "\<not> class_property k" and
    b: "string_property k \<longrightarrow> (\<exists>s. v = JSString s)"
    by simp_all
  show ?thesis
  proof (cases "string_property k")
    case True
    with b obtain s where "v = JSString s" by blast
    with a True assms(1) show ?thesis
      by (simp add: put_property_def put_element_def)
  next
    case False
    with a assms(1) show ?thesis
      by (simp add: put_property_def put_element_def)
  qed
qed

lemma assign_entries_stored:
  "get_element h el = Some e \<Longrightarrow> list_all (\<lambda>(k, v). stored_as_given k v) kvs \<Longrightarrow>
     assign_entries el kvs h =
       (Inr (), h[el := Element (e\<lparr>properties :=
                    fold (\<lambda>(k, v). AList.update k v) kvs (properties e)\<rparr>)])"
proof (induction kvs arbitrary: h e)
  case Nil
  then have "h[el := Element e] = h"
    by (auto simp: get_element_def list_update_same_conv split: if_splits node.splits)
  then show ?case by simp
next
  case (Cons kv kvs)
  obtain k v where kv: "kv = (k, v)" by (cases kv)
  let ?e1 = "e\<lparr>properties := AList.update k v (properties e)\<rparr>"
  let ?h1 = "h[el := Element ?e1]"
  from Cons.prems kv have sk: "stored_as_given k v"
    "list_all (\<lambda>(k, v). stored_as_given k v) kvs" by simp_all
  from Cons.prems(1) have lt: "el < length h"
    by (simp add: get_element_def split: if_splits)
  then have g1: "get_element ?h1 el = Some ?e1"
    by (simp add: get_element_def)
  show ?case
    using Cons.IH[OF g1 sk(2)] put_property_stored[OF Cons.prems(1) sk(1)]
    by (simp add: kv)
qed

lemma map_of_fold_update:
  "map_of (fold (\<lambda>(k, v). AList.update k v) kvs ps) k' =
     (case map_of (rev kvs) k' of Some v \<Rightarrow> Some v | None \<Rightarrow> map_of ps k')"
  by (induction kvs arbitrary: ps) (auto simp: update_conv' map_add_def split: option.splits)

lemma fold_update_reads_back:
  assumes "distinct (map fst kvs)"
  shows "list_all (\<lambda>(k, v). map_of (fold (\<lambda>(k, v). AList.update k v) kvs ps) k = Some v) kvs"
proof -
  have "map_of (fold (\<lambda>(k, v). AList.update k v) kvs ps) k = Some v"
    if "(k, v) \<in> set kvs" for k v
  proof -
    from assms have "distinct (map fst (rev kvs))"
      by (simp add: rev_map[symmetric])
    moreover from that have "(k, v) \<in> set (rev kvs)" by simp
    ultimately have "map_of (rev kvs) k = Some v"
      by (rule map_of_is_SomeI)
    then show ?thesis by (simp add: map_of_fold_update)
  qed
  then show ?thesis by (auto simp: list_all_iff)
qed

subsection \<open>The nodes of a call, placed after a document\<close>

lemma length_placed [simp]: "length (placed h seg) = length h + length seg"
  by (simp add: placed_def)

lemma placed_nth:
  "i < length seg \<Longrightarrow> (placed h seg @ rest) ! (length h + i) = shift_node (length h) (seg ! i)"
  by (simp add: placed_def nth_append)

lemma placed_update:
  "i < length seg \<Longrightarrow>
     (placed h seg)[length h + i := shift_node (length h) n] = placed h (seg[i := n])"
  by (simp add: placed_def list_update_append map_update)

lemma placed_snoc: "placed h seg @ [shift_node (length h) n] = placed h (seg @ [n])"
  by (simp add: placed_def)

lemma placed_single:
  "h @ [Element (selector_element selector)] = placed h [Element (selector_element selector)]"
  by (simp add: placed_def shift_node_def selector_element_def)

lemma closed_nth: "closed seg \<Longrightarrow> i < length seg \<Longrightarrow> refs_below (length seg) (seg ! i)"
  by (simp add: closed_def list_all_length)

lemma refs_below_mono: "refs_below m n \<Longrightarrow> m \<le> m' \<Longrightarrow> refs_below m' n"
  by (auto simp: refs_below_def list_all_iff split: node.splits option.splits)

lemma closed_update:
  "closed seg \<Longrightarrow> refs_below (length seg) n \<Longrightarrow> closed (seg[i := n])"
  by (auto simp: closed_def list_all_iff dest: set_update_subset_insert[THEN subsetD])

lemma closed_snoc:
  "closed seg \<Longrightarrow> refs_below (Suc (length seg)) n \<Longrightarrow> closed (seg @ [n])"
  by (auto simp: closed_def list_all_iff intro: refs_below_mono)

lemma own_nodes_element: "own_nodes seg \<Longrightarrow> \<exists>e. get_element seg 0 = Some e"
  by (auto simp: own_nodes_def is_element_get)

lemma get_element_placed:
  "get_element seg i = Some e \<Longrightarrow>
     get_element (placed h seg @ rest) (length h + i) =
       Some (e\<lparr>childNodes := map ((+) (length h)) (childNodes e),
               parentNode := map_option ((+) (length h)) (parentNode e)\<rparr>)"
  by (auto simp: get_element_def placed_def nth_append shift_node_def
           split: if_splits node.splits)

lemma get_element_placed_None:
  "get_element seg 0 = None \<Longrightarrow> get_element (placed h seg) (length h) = None"
  by (cases seg) (auto simp: get_element_def placed_def nth_append shift_node_def
                       split: if_splits node.splits)

lemma get_parent_placed:
  "i < length seg \<Longrightarrow>
     get_parent (placed h seg @ rest) (length h + i) =
       map_option ((+) (length h)) (get_parent seg i)"
  by (auto simp: get_parent_def placed_def nth_append shift_node_def split: node.splits)

lemma get_parent_closed:
  "closed seg \<Longrightarrow> get_parent seg i = Some p \<Longrightarrow> p < length seg"
proof -
  assume c: "closed seg" and g: "get_parent seg i = Some p"
  from g have i: "i < length seg"
    by (simp add: get_parent_def split: if_splits)
  from closed_nth[OF c i] g i show ?thesis
    by (auto simp: refs_below_def get_parent_def split: node.splits option.splits)
qed

lemma put_element_shift:
  "put_element k v (e\<lparr>childNodes := cs, parentNode := p\<rparr>) =
     (case put_element k v e of
        Inl x \<Rightarrow> Inl x
      | Inr e' \<Rightarrow> Inr (e'\<lparr>childNodes := cs, parentNode := p\<rparr>))"
  by (simp add: put_element_def)

lemma put_element_refs:
  "put_element k v e = Inr e' \<Longrightarrow> childNodes e' = childNodes e \<and> parentNode e' = parentNode e"
  by (auto simp: put_element_def split: if_splits)

lemma put_property_placed:
  "put_property (length h) k v (placed h seg) =
     (fst (put_property 0 k v seg), placed h (snd (put_property 0 k v seg)))"
proof (cases "get_element seg 0")
  case None
  then show ?thesis
    by (simp add: put_property_def get_element_placed_None)
next
  case (Some e)
  then have lt: "0 < length seg"
    by (simp add: get_element_def split: if_splits)
  from get_element_placed[OF Some, of h "[]"]
  have g: "get_element (placed h seg) (length h) =
       Some (e\<lparr>childNodes := map ((+) (length h)) (childNodes e),
               parentNode := map_option ((+) (length h)) (parentNode e)\<rparr>)"
    by simp
  show ?thesis
  proof (cases "put_element k v e")
    case (Inl x)
    then show ?thesis
      by (simp add: put_property_def g Some put_element_shift)
  next
    case (Inr e')
    from put_element_refs[OF Inr]
    have "Element (e'\<lparr>childNodes := map ((+) (length h)) (childNodes e),
                       parentNode := map_option ((+) (length h)) (parentNode e)\<rparr>) =
          shift_node (length h) (Element e')"
      by (simp add: shift_node_def)
    then show ?thesis
      using placed_update[OF lt, of h "Element e'"]
      by (simp add: put_property_def g Some put_element_shift Inr)
  qed
qed

lemma own_nodes_put_property: "own_nodes seg \<Longrightarrow> own_nodes (snd (put_property 0 k v seg))"
proof -
  assume o: "own_nodes seg"
  then obtain e where e: "get_element seg 0 = Some e"
    using own_nodes_element by blast
  then have lt: "0 < length seg" and n: "seg ! 0 = Element e"
    by (auto simp: get_element_def split: if_splits node.splits)
  show ?thesis
  proof (cases "put_element k v e")
    case (Inl x)
    with o e show ?thesis by (simp add: put_property_def)
  next
    case (Inr e')
    from o have c: "closed seg" by (simp add: own_nodes_def)
    from closed_nth[OF c lt] n put_element_refs[OF Inr]
    have "refs_below (length seg) (Element e')"
      by (simp add: refs_below_def)
    from closed_update[OF c this, of 0] lt show ?thesis
      by (simp add: put_property_def e Inr own_nodes_def is_element_def)
  qed
qed

lemma assign_entries_placed:
  "own_nodes seg \<Longrightarrow>
     assign_entries (length h) kvs (placed h seg) =
       (fst (assign_entries 0 kvs seg), placed h (snd (assign_entries 0 kvs seg))) \<and>
     own_nodes (snd (assign_entries 0 kvs seg))"
proof (induction kvs arbitrary: seg)
  case Nil
  then show ?case by simp
next
  case (Cons kv kvs)
  obtain k v where kv: "kv = (k, v)" by (cases kv)
  obtain r1 seg1 where p: "put_property 0 k v seg = (r1, seg1)"
    by (cases "put_property 0 k v seg")
  from own_nodes_put_property[OF Cons.prems, of k v] p have o1: "own_nodes seg1" by simp
  from put_property_placed[of h k v seg] p
  have pp: "put_property (length h) k v (placed h seg) = (r1, placed h seg1)" by simp
  show ?case
  proof (cases r1)
    case (Inl x)
    with p pp o1 show ?thesis by (simp add: kv)
  next
    case (Inr u)
    with p pp Cons.IH[OF o1] show ?thesis by (simp add: kv)
  qed
qed

lemma no_ancestor_outside:
  "closed seg \<Longrightarrow> i < length seg \<Longrightarrow>
     \<not> inclusive_ancestor k (placed h seg @ rest) (length h + length seg) (length h + i)"
proof (induction k arbitrary: i)
  case 0
  then show ?case by simp
next
  case (Suc k)
  show ?case
  proof (cases "get_parent seg i")
    case None
    with Suc.prems show ?thesis by (simp add: get_parent_placed)
  next
    case (Some p)
    from get_parent_closed[OF Suc.prems(1) Some] have "p < length seg" .
    from Suc.IH[OF Suc.prems(1) this] Suc.prems Some show ?thesis
      by (simp add: get_parent_placed)
  qed
qed

lemma appendChild_text_placed:
  assumes o: "own_nodes seg"
  shows "appendChild (length h) (length (placed h seg)) (placed h seg @ [Text s None]) =
           (Inr (), placed h (update_element 0 (\<lambda>e. e\<lparr>childNodes := childNodes e @ [length seg]\<rparr>) seg
                              @ [Text s (Some 0)])) \<and>
         own_nodes (update_element 0 (\<lambda>e. e\<lparr>childNodes := childNodes e @ [length seg]\<rparr>) seg
                      @ [Text s (Some 0)])"
proof -
  from o obtain e where e: "get_element seg 0 = Some e"
    using own_nodes_element by blast
  then have lt: "0 < length seg" and n: "seg ! 0 = Element e"
    by (auto simp: get_element_def split: if_splits node.splits)
  from o have c: "closed seg" by (simp add: own_nodes_def)
  let ?b = "length h"
  let ?t = "length h + length seg"
  let ?H = "placed h seg @ [Text s None]"
  let ?e' = "e\<lparr>childNodes := childNodes e @ [length seg]\<rparr>"
  have na: "\<not> inclusive_ancestor (length ?H) ?H ?t ?b"
    using no_ancestor_outside[OF c lt, of "length ?H" h "[Text s None]"] by simp
  have gt: "get_parent ?H ?t = None"
    by (simp add: get_parent_def nth_append)
  have ge: "get_element ?H ?b =
       Some (e\<lparr>childNodes := map ((+) ?b) (childNodes e),
               parentNode := map_option ((+) ?b) (parentNode e)\<rparr>)"
    using get_element_placed[OF e, of h "[Text s None]"] by simp
  have sh: "Element (e\<lparr>childNodes := map ((+) ?b) (childNodes e) @ [?t],
                        parentNode := map_option ((+) ?b) (parentNode e)\<rparr>) =
            shift_node ?b (Element ?e')"
    by (simp add: shift_node_def)
  have sw: "e\<lparr>parentNode := map_option ((+) ?b) (parentNode e),
               childNodes := map ((+) ?b) (childNodes e) @ [?t]\<rparr> =
            e\<lparr>childNodes := map ((+) ?b) (childNodes e) @ [?t],
               parentNode := map_option ((+) ?b) (parentNode e)\<rparr>"
    by (cases e) simp
  have "update_element ?b (\<lambda>e. e\<lparr>childNodes := childNodes e @ [?t]\<rparr>) ?H =
          placed h (seg[0 := Element ?e']) @ [Text s None]"
    using placed_update[OF lt, of h "Element ?e'"] lt
    by (simp add: update_element_def ge sh[symmetric] list_update_append sw)
  moreover have "set_parent ?t (Some ?b) (placed h (seg[0 := Element ?e']) @ [Text s None]) =
          placed h (seg[0 := Element ?e'] @ [Text s (Some 0)])"
  proof -
    have "set_parent (length X) (Some ?b) (X @ [Text s None]) = X @ [Text s (Some ?b)]" for X
      by (simp add: set_parent_def)
    from this[of "placed h (seg[0 := Element ?e'])"]
    show ?thesis
      using placed_snoc[of h "seg[0 := Element ?e']" "Text s (Some 0)"]
      by (simp add: shift_node_def)
  qed
  ultimately have
    "appendChild ?b ?t ?H = (Inr (), placed h (seg[0 := Element ?e'] @ [Text s (Some 0)]))"
    using na gt by (simp add: appendChild_def remove_from_parent_def)
  moreover have u: "update_element 0 (\<lambda>e. e\<lparr>childNodes := childNodes e @ [length seg]\<rparr>) seg =
                 seg[0 := Element ?e']"
    by (simp add: update_element_def e)
  moreover have "own_nodes (seg[0 := Element ?e'] @ [Text s (Some 0)])"
  proof -
    from closed_nth[OF c lt] n have "refs_below (length seg) (Element e)" by simp
    then have r: "refs_below (Suc (length seg)) (Element ?e')"
      by (auto simp: refs_below_def list_all_iff split: option.splits)
    have "closed (seg @ [Text s (Some 0)])"
      by (rule closed_snoc[OF c]) (simp add: refs_below_def)
    then have "closed ((seg @ [Text s (Some 0)])[0 := Element ?e'])"
      by (rule closed_update) (use r in simp)
    then show ?thesis
      using lt by (simp add: own_nodes_def is_element_def list_update_append nth_append)
  qed
  ultimately show ?thesis by simp
qed

lemma applyProp_placed:
  assumes "self_contained p" and o: "own_nodes seg"
  shows "\<exists>r seg'. own_nodes seg' \<and>
           (\<forall>h. applyProp (length h) p (placed h seg) = (r, placed h seg'))"
proof (cases p)
  case (HTMLElement c)
  with assms(1) show ?thesis by (simp add: self_contained_def)
next
  case (Function f)
  with assms(1) obtain g where g:
    "\<And>h seg. own_nodes seg \<Longrightarrow>
        f (length h) (placed h seg) = (fst (g seg), placed h (snd (g seg))) \<and>
        own_nodes (snd (g seg))"
    unfolding self_contained_def local_callback_def by auto
  let ?r = "case fst (g seg) of Inl x \<Rightarrow> Inl x | Inr v \<Rightarrow> Inr ()"
  have "applyProp (length h) (Function f) (placed h seg) = (?r, placed h (snd (g seg)))" for h
    using g[OF o, of h] by (simp add: applyProp_Function split: sum.splits)
  with g[OF o] show ?thesis unfolding Function by blast
next
  case (Value v)
  show ?thesis
  proof (cases "typeof (Value v) = ''string''")
    case True
    then obtain s where s: "v = JSString s"
      by (cases v) (simp_all add: typeof_def)
    from appendChild_text_placed[OF o] show ?thesis
      unfolding Value s by (simp add: applyProp_JSString) blast
  next
    case False
    from assign_entries_placed[OF o] False show ?thesis
      unfolding Value by (simp add: applyProp_assign Object_assign_def) blast
  qed
qed

lemma forEach_placed:
  "list_all self_contained ps \<Longrightarrow> own_nodes seg \<Longrightarrow>
     \<exists>r seg'. own_nodes seg' \<and>
        (\<forall>h. forEach (applyProp (length h)) ps (placed h seg) = (r, placed h seg'))"
proof (induction ps arbitrary: seg)
  case Nil
  then show ?case by auto
next
  case (Cons p ps)
  from Cons.prems(1) have sc: "self_contained p" "list_all self_contained ps" by simp_all
  from applyProp_placed[OF sc(1) Cons.prems(2)] obtain r1 seg1 where
    o1: "own_nodes seg1" and
    a: "\<And>h. applyProp (length h) p (placed h seg) = (r1, placed h seg1)"
    by blast
  show ?case
  proof (cases r1)
    case (Inl x)
    with a have "\<And>h. forEach (applyProp (length h)) (p # ps) (placed h seg) =
                    (Inl x, placed h seg1)"
      by simp
    with o1 show ?thesis by blast
  next
    case (Inr u)
    from Cons.IH[OF sc(2) o1] obtain r seg' where
      o': "own_nodes seg'" and
      b: "\<And>h. forEach (applyProp (length h)) ps (placed h seg1) = (r, placed h seg')"
      by blast
    from a b Inr have "\<And>h. forEach (applyProp (length h)) (p # ps) (placed h seg) =
                    (r, placed h seg')"
      by simp
    with o' show ?thesis by blast
  qed
qed

lemma snapshot_placed:
  "closed seg \<Longrightarrow> i < length seg \<Longrightarrow>
     snapshot n (placed h seg @ rest) (length h + i) = snapshot n seg i"
proof (induction n arbitrary: i)
  case 0
  then show ?case by simp
next
  case (Suc n)
  show ?case
  proof (cases "seg ! i")
    case (Text s p)
    with Suc.prems show ?thesis
      by (simp add: placed_nth shift_node_def)
  next
    case (Element e)
    from closed_nth[OF Suc.prems] Element
    have cs: "\<And>c. c \<in> set (childNodes e) \<Longrightarrow> c < length seg"
      by (simp add: refs_below_def list_all_iff)
    have "map (snapshot n (placed h seg @ rest)) (map ((+) (length h)) (childNodes e)) =
          map (snapshot n seg) (childNodes e)"
      using Suc.IH[OF Suc.prems(1)] cs by simp
    with Suc.prems Element show ?thesis
      by (simp add: placed_nth shift_node_def)
  qed
qed

lemma stamp_size_own_element:
  "length (snd (stamp_size el h)) = length h \<and>
   (x \<noteq> el \<longrightarrow> snd (stamp_size el h) ! x = h ! x)"
  by (simp add: stamp_size_def set_property_def update_element_def split: option.splits)

lemma local_append_note: "local_callback append_note"
  unfolding local_callback_def
proof (intro exI allI impI)
  fix h seg
  assume o: "own_nodes seg"
  let ?g = "\<lambda>seg. (Inr JSUndefined :: exn + jsval,
                   update_element 0 (\<lambda>e. e\<lparr>childNodes := childNodes e @ [length seg]\<rparr>) seg
                     @ [Text ''note'' (Some 0)])"
  from appendChild_text_placed[OF o, of h "''note''"]
  show "append_note (length h) (placed h seg) = (fst (?g seg), placed h (snd (?g seg))) \<and>
        own_nodes (snd (?g seg))"
    by (simp add: append_note_def)
qed

section \<open>The properties of the builder\<close>

text \<open>
  Claim C1, as it holds. For a selector \<^verbatim>\<open>tag#id.c1.c2\<close>, where \<open>tag\<close>, \<open>id\<close>, \<open>c1\<close> and
  \<open>c2\<close> are non-empty runs of letters, digits, hyphens and underscores, the element \<^verbatim>\<open>$\<close>
  returns is a new element whose tag name is \<open>tag\<close> folded to ASCII lower case (so \<open>tag\<close>
  itself when it has no upper-case letter), with identifier \<open>id\<close> and the classes \<open>c1\<close>,
  \<open>c2\<close> in this order (once, when they are the same class), and nothing else set. It
  returns that element whenever the host makes an element of the name \<open>tag\<close>; when the
  host refuses the name, the call ends with the host's error and returns no element.
  With trailing arguments, this is the element they are applied to.
\<close>

theorem selector_tag_id_classes:
  assumes tag: "tag \<noteq> []" "list_all wordchar tag"
      and ident: "ident \<noteq> []" "list_all wordchar ident"
      and c1: "c1 \<noteq> []" "list_all wordchar c1"
      and c2: "c2 \<noteq> []" "list_all wordchar c2"
  shows "dollar (tag @ ''#'' @ ident @ ''.'' @ c1 @ ''.'' @ c2) [] h =
           (if valid_element_local_name tag
            then (Inr (length h),
                  h @ [Element \<lparr>localName = map ascii_lower tag,
                                 properties = [(''id'', JSString ident)],
                                 classList = (if c1 = c2 then [c1] else [c1, c2]),
                                 childNodes = [], parentNode = None\<rparr>])
            else (Inl InvalidCharacterError, h)) \<and>
         dollar (tag @ ''#'' @ ident @ ''.'' @ c1 @ ''.'' @ c2) rest h =
           (if valid_element_local_name tag
            then (case forEach (applyProp (length h)) rest
                         (h @ [Element \<lparr>localName = map ascii_lower tag,
                                        properties = [(''id'', JSString ident)],
                                        classList = (if c1 = c2 then [c1] else [c1, c2]),
                                        childNodes = [], parentNode = None\<rparr>]) of
                    (Inl e, h') \<Rightarrow> (Inl e, h')
                  | (Inr u, h') \<Rightarrow> (Inr (length h), h'))
            else (Inl InvalidCharacterError, h))"
proof -
  let ?sel = "tag @ ''#'' @ ident @ ''.'' @ c1 @ ''.'' @ c2"
  have t: "tag_name ?sel = tag"
    using tag by (simp add: tag_name_def match_tag_def takeWhile_run)
  have i: "match_id ?sel = Some ident"
    using tag ident by (simp add: match_id_skip_run takeWhile_run)
  have "class_matches ?sel = class_matches (''.'' @ c1 @ ''.'' @ c2)"
    using tag ident by (simp add: class_matches_skip_run)
  also have "\<dots> = [CHR ''.'' # c1, CHR ''.'' # c2]"
    using c1 c2 by (simp add: takeWhile_run dropWhile_run takeWhile_whole_run dropWhile_whole_run)
  finally have c: "class_matches ?sel = [CHR ''.'' # c1, CHR ''.'' # c2]" .
  have "selector_element ?sel =
          \<lparr>localName = map ascii_lower tag, properties = [(''id'', JSString ident)],
           classList = (if c1 = c2 then [c1] else [c1, c2]),
           childNodes = [], parentNode = None\<rparr>"
    unfolding selector_element_def t i c by (simp add: append_token_def)
  then show ?thesis
    by (simp only: dollar_eq t forEach.simps) simp
qed

theorem selector_tag_id_classes_witness:
  "valid_element_local_name ''DIV'' \<and>
   dollar ''DIV#Main.A.b'' [] [] =
     (Inr 0,
      [Element \<lparr>localName = ''div'', properties = [(''id'', JSString ''Main'')],
                 classList = [''A'', ''b''], childNodes = [], parentNode = None\<rparr>]) \<and>
   valid_element_local_name ''input'' \<and>
   dollar ''input#email.form-control.wide'' [] [] =
     (Inr 0,
      [Element \<lparr>localName = ''input'', properties = [(''id'', JSString ''email'')],
                 classList = [''form-control'', ''wide''],
                 childNodes = [], parentNode = None\<rparr>])"
  using selector_tag_id_classes [of "''DIV''" "''Main''" "''A''" "''b''" "[]" "[]"]
        selector_tag_id_classes
          [of "''input''" "''email''" "''form-control''" "''wide''" "[]" "[]"]
  by (simp add: wordchar_def ascii_alpha_def ascii_digit_def name_rest_after_alpha_def
        ascii_whitespace_def ascii_lower_def)

text \<open>
  Claim C1, as the specification words it, asks for the tag name \<open>tag\<close> itself. For the
  selector \<^verbatim>\<open>Div#Main.A.b\<close> the element has the local name \<^verbatim>\<open>div\<close> and the tag name
  \<^verbatim>\<open>DIV\<close>, neither of which is \<^verbatim>\<open>Div\<close>.
\<close>

theorem selector_tag_case_counterexample:
  "dollar ''Div#Main.A.b'' [] [] =
     (Inr 0,
      [Element \<lparr>localName = ''div'', properties = [(''id'', JSString ''Main'')],
                 classList = [''A'', ''b''], childNodes = [], parentNode = None\<rparr>]) \<and>
   localName \<lparr>localName = ''div'', properties = [(''id'', JSString ''Main'')],
              classList = [''A'', ''b''], childNodes = [], parentNode = None\<rparr> \<noteq> ''Div'' \<and>
   tagName \<lparr>localName = ''div'', properties = [(''id'', JSString ''Main'')],
            classList = [''A'', ''b''], childNodes = [], parentNode = None\<rparr> = ''DIV'' \<and>
   ''DIV'' \<noteq> ''Div''"
  by (simp add: eval_defs tagName_def ascii_upper_def)

text \<open>
  Claim C2. \<^verbatim>\<open>$\<close> takes the trailing arguments from left to right, one action each:
  the call with one more argument at the end is the call without it, followed (when that
  call returned) by the one action the shape of the argument selects, on the element and
  the document that call gave. An element is appended as a child; a callable is called
  with the new element and the current document, and what it returns is dropped; a
  string becomes a new text node, holding that string, appended as a child; any other
  value is handed to \<^verbatim>\<open>Object.assign\<close>, which writes its own enumerable properties to the
  element, in order. An exception of the action ends the call. Appending an element that
  is neither the new element nor one of its ancestors succeeds and makes it the last
  child; appending the text node of a string succeeds and makes it the last child; a bag
  of distinct keys, applied to an element of a kind without accessors of its own, each
  key one that the host stores as given, succeeds, after it each key of the bag reads
  back the value the bag gave it, and nothing else of the element has changed.
\<close>

theorem arguments_left_to_right:
  "dollar selector (ps @ [p]) h =
     (case dollar selector ps h of
        (Inl e, h1) \<Rightarrow> (Inl e, h1)
      | (Inr el, h1) \<Rightarrow>
          (case (case p of
                   HTMLElement c \<Rightarrow> appendChild el c h1
                 | Function f \<Rightarrow>
                     (case f el h1 of
                        (Inl e, h2) \<Rightarrow> (Inl e, h2)
                      | (Inr v, h2) \<Rightarrow> (Inr (), h2))
                 | Value (JSString s) \<Rightarrow> appendChild el (length h1) (h1 @ [Text s None])
                 | Value v \<Rightarrow> Object_assign el v h1) of
             (Inl e, h2) \<Rightarrow> (Inl e, h2)
           | (Inr u, h2) \<Rightarrow> (Inr el, h2))) \<and>
   (get_element h1 el = Some e \<and> \<not> inclusive_ancestor (length h1) h1 c el \<longrightarrow>
      (\<exists>h2 e' cs. appendChild el c h1 = (Inr (), h2) \<and> get_element h2 el = Some e' \<and>
          childNodes e' = cs @ [c])) \<and>
   (get_element h1 el = Some e \<and> parents_in_range h1 \<longrightarrow>
      appendChild el (length h1) (h1 @ [Text s None]) =
        (Inr (), h1[el := Element (e\<lparr>childNodes := childNodes e @ [length h1]\<rparr>)]
                   @ [Text s (Some el)])) \<and>
   (get_element h1 el = Some e \<and> plain_element (localName e) \<and> distinct (map fst bag) \<and>
    list_all (\<lambda>(k, v). stored_as_given k v) bag \<longrightarrow>
      Object_assign el (JSObject bag) h1 =
        (Inr (), h1[el := Element (e\<lparr>properties :=
                      fold (\<lambda>(k, v). AList.update k v) bag (properties e)\<rparr>)]) \<and>
      list_all (\<lambda>(k, v).
          map_of (fold (\<lambda>(k, v). AList.update k v) bag (properties e)) k = Some v) bag)"
proof -
  have "dollar selector (ps @ [p]) h =
     (case dollar selector ps h of
        (Inl e, h1) \<Rightarrow> (Inl e, h1)
      | (Inr el, h1) \<Rightarrow>
          (case (case p of
                   HTMLElement c \<Rightarrow> appendChild el c h1
                 | Function f \<Rightarrow>
                     (case f el h1 of
                        (Inl e, h2) \<Rightarrow> (Inl e, h2)
                      | (Inr v, h2) \<Rightarrow> (Inr (), h2))
                 | Value (JSString s) \<Rightarrow> appendChild el (length h1) (h1 @ [Text s None])
                 | Value v \<Rightarrow> Object_assign el v h1) of
             (Inl e, h2) \<Rightarrow> (Inl e, h2)
           | (Inr u, h2) \<Rightarrow> (Inr el, h2)))"
    by (simp only: dollar_snoc applyProp_cases)
  moreover have "\<exists>h2 e' cs. appendChild el c h1 = (Inr (), h2) \<and>
          get_element h2 el = Some e' \<and> childNodes e' = cs @ [c]"
    if "get_element h1 el = Some e" "\<not> inclusive_ancestor (length h1) h1 c el"
    using appendChild_element_result[OF that] by blast
  moreover have "appendChild el (length h1) (h1 @ [Text s None]) =
        (Inr (), h1[el := Element (e\<lparr>childNodes := childNodes e @ [length h1]\<rparr>)]
                   @ [Text s (Some el)])"
    if "get_element h1 el = Some e" "parents_in_range h1"
    using appendChild_new_text_result[OF that] .
  moreover have "Object_assign el (JSObject bag) h1 =
        (Inr (), h1[el := Element (e\<lparr>properties :=
                      fold (\<lambda>(k, v). AList.update k v) bag (properties e)\<rparr>)])"
    if "get_element h1 el = Some e" "list_all (\<lambda>(k, v). stored_as_given k v) bag"
    using assign_entries_stored[OF that] by (simp add: Object_assign_def)
  moreover have "list_all (\<lambda>(k, v).
          map_of (fold (\<lambda>(k, v). AList.update k v) bag (properties e)) k = Some v) bag"
    if "distinct (map fst bag)"
    using fold_update_reads_back[OF that] .
  ultimately show ?thesis by blast
qed

theorem arguments_left_to_right_witness:
  "dollar ''p'' [Value (JSString ''a''), Value (JSString ''b'')] [] =
     (Inr 0,
      [Element \<lparr>localName = ''p'', properties = [], classList = [],
                 childNodes = [1, 2], parentNode = None\<rparr>,
       Text ''a'' (Some 0), Text ''b'' (Some 0)]) \<and>
   dollar ''input''
     [Value (JSObject [(''type'', JSString ''email''), (''required'', JSBoolean True)])] [] =
     (Inr 0,
      [Element \<lparr>localName = ''input'',
                 properties = [(''type'', JSString ''email''), (''required'', JSBoolean True)],
                 classList = [], childNodes = [], parentNode = None\<rparr>]) \<and>
   dollar ''div.a'' [Value (JSObject [(''className'', JSString ''b c'')])] [] =
     (Inr 0,
      [Element \<lparr>localName = ''div'', properties = [], classList = [''b'', ''c''],
                 childNodes = [], parentNode = None\<rparr>]) \<and>
   dollar ''div''
     [Value (JSObject [(''title'', JSNumber 5), (''tagName'', JSString ''x''),
                       (''lang'', JSString ''en'')])] [] =
     (Inl TypeError,
      [Element \<lparr>localName = ''div'', properties = [(''title'', JSString ''5'')],
                 classList = [], childNodes = [], parentNode = None\<rparr>]) \<and>
   \<not> inclusive_ancestor 2
       [Element \<lparr>localName = ''ul'', properties = [], classList = [],
                  childNodes = [], parentNode = None\<rparr>,
        Element \<lparr>localName = ''li'', properties = [], classList = [],
                  childNodes = [], parentNode = None\<rparr>] 1 0 \<and>
   (\<exists>h2 e' cs.
      appendChild 0 1
        [Element \<lparr>localName = ''ul'', properties = [], classList = [],
                   childNodes = [], parentNode = None\<rparr>,
         Element \<lparr>localName = ''li'', properties = [], classList = [],
                   childNodes = [], parentNode = None\<rparr>] = (Inr (), h2) \<and>
      get_element h2 0 = Some e' \<and> childNodes e' = cs @ [1]) \<and>
   parents_in_range
     [Element \<lparr>localName = ''p'', properties = [], classList = [],
                childNodes = [], parentNode = None\<rparr>] \<and>
   appendChild 0 1
     [Element \<lparr>localName = ''p'', properties = [], classList = [],
                childNodes = [], parentNode = None\<rparr>, Text ''a'' None] =
     (Inr (),
      [Element \<lparr>localName = ''p'', properties = [], classList = [],
                 childNodes = [1], parentNode = None\<rparr>, Text ''a'' (Some 0)]) \<and>
   plain_element ''span'' \<and>
   list_all (\<lambda>(k, v). stored_as_given k v)
     [(''title'', JSString ''Mail''), (''count'', JSNumber 3), (''id'', JSString ''m'')] \<and>
   Object_assign 0
     (JSObject [(''title'', JSString ''Mail''), (''count'', JSNumber 3), (''id'', JSString ''m'')])
     [Element \<lparr>localName = ''span'', properties = [(''id'', JSString ''s'')],
                classList = [], childNodes = [], parentNode = None\<rparr>] =
     (Inr (),
      [Element \<lparr>localName = ''span'',
                 properties = [(''id'', JSString ''m''), (''title'', JSString ''Mail''),
                               (''count'', JSNumber 3)],
                 classList = [], childNodes = [], parentNode = None\<rparr>])"
proof -
  let ?ul = "\<lparr>localName = ''ul'', properties = [], classList = [],
              childNodes = [], parentNode = None\<rparr>"
  let ?li = "\<lparr>localName = ''li'', properties = [], classList = [],
              childNodes = [], parentNode = None\<rparr>"
  let ?p = "\<lparr>localName = ''p'', properties = [], classList = [],
             childNodes = [], parentNode = None\<rparr>"
  let ?in = "\<lparr>localName = ''span'', properties = [(''id'', JSString ''s'')],
              classList = [], childNodes = [], parentNode = None\<rparr>"
  let ?bag = "[(''type'', JSString ''email''), (''required'', JSBoolean True)]"
  let ?given =
    "[(''title'', JSString ''Mail''), (''count'', JSNumber 3), (''id'', JSString ''m'')]"
  have a: "dollar ''p'' [Value (JSString ''a'')] [] =
     (Inr 0, [Element (?p\<lparr>childNodes := [1]\<rparr>), Text ''a'' (Some 0)])"
    by (simp add: eval_defs)
  have b: "dollar ''input'' [] [] =
     (Inr 0, [Element \<lparr>localName = ''input'', properties = [], classList = [],
                        childNodes = [], parentNode = None\<rparr>])"
    by (simp add: eval_defs)
  have c: "dollar ''div.a'' [] [] =
     (Inr 0, [Element \<lparr>localName = ''div'', properties = [], classList = [''a''],
                        childNodes = [], parentNode = None\<rparr>])"
    by (simp add: eval_defs)
  have d: "dollar ''div'' [] [] =
     (Inr 0, [Element \<lparr>localName = ''div'', properties = [], classList = [],
                        childNodes = [], parentNode = None\<rparr>])"
    by (simp add: eval_defs)
  have g1: "get_element [Element ?ul, Element ?li] 0 = Some ?ul"
    by (simp add: get_element_def)
  have n1: "\<not> inclusive_ancestor (length [Element ?ul, Element ?li])
              [Element ?ul, Element ?li] 1 0"
    by (simp add: get_parent_def)
  have g2: "get_element [Element ?p] 0 = Some ?p"
    by (simp add: get_element_def)
  have r2: "parents_in_range [Element ?p]"
    by (simp add: parents_in_range_def get_parent_def)
  have g3: "get_element [Element ?in] 0 = Some ?in"
    by (simp add: get_element_def)
  have k3: "plain_element (localName ?in)" "distinct (map fst ?given)"
    "list_all (\<lambda>(k, v). stored_as_given k v) ?given"
    by (simp_all add: plain_element_def stored_as_given_def read_only_property_def
          string_property_def class_property_def unfollowed_property_def ascii_upper_def
          ascii_lower_def)
  have w1: "dollar ''p'' [Value (JSString ''a''), Value (JSString ''b'')] [] =
     (Inr 0,
      [Element (?p\<lparr>childNodes := [1, 2]\<rparr>), Text ''a'' (Some 0), Text ''b'' (Some 0)])"
    using arguments_left_to_right
            [of "''p''" "[Value (JSString ''a'')]" "Value (JSString ''b'')" "[]", THEN conjunct1] a
    by (simp add: appendChild_def remove_from_parent_def get_parent_def set_parent_def
          update_element_def get_element_def)
  have w4: "dollar ''input'' [Value (JSObject ?bag)] [] =
     (Inr 0,
      [Element \<lparr>localName = ''input'', properties = ?bag,
                 classList = [], childNodes = [], parentNode = None\<rparr>])"
    using arguments_left_to_right
            [of "''input''" "[]" "Value (JSObject ?bag)" "[]", THEN conjunct1] b
    by (simp add: Object_assign_def eval_defs get_element_def)
  have w5: "dollar ''div.a'' [Value (JSObject [(''className'', JSString ''b c'')])] [] =
     (Inr 0,
      [Element \<lparr>localName = ''div'', properties = [], classList = [''b'', ''c''],
                 childNodes = [], parentNode = None\<rparr>])"
    using arguments_left_to_right
            [of "''div.a''" "[]" "Value (JSObject [(''className'', JSString ''b c'')])" "[]",
             THEN conjunct1] c
    by (simp add: Object_assign_def eval_defs get_element_def ascii_whitespace_def)
  have w6: "dollar ''div''
     [Value (JSObject [(''title'', JSNumber 5), (''tagName'', JSString ''x''),
                       (''lang'', JSString ''en'')])] [] =
     (Inl TypeError,
      [Element \<lparr>localName = ''div'', properties = [(''title'', JSString ''5'')],
                 classList = [], childNodes = [], parentNode = None\<rparr>])"
    using arguments_left_to_right
            [of "''div''" "[]"
                "Value (JSObject [(''title'', JSNumber 5), (''tagName'', JSString ''x''),
                                  (''lang'', JSString ''en'')])" "[]", THEN conjunct1] d
    by (simp add: Object_assign_def eval_defs get_element_def)
  have w2: "\<exists>h2 e' cs. appendChild 0 1 [Element ?ul, Element ?li] = (Inr (), h2) \<and>
              get_element h2 0 = Some e' \<and> childNodes e' = cs @ [1]"
    using arguments_left_to_right
            [where ?h1.0 = "[Element ?ul, Element ?li]" and el = 0 and e = ?ul and c = 1]
          g1 n1
    by blast
  have w3: "appendChild 0 (length [Element ?p]) ([Element ?p] @ [Text ''a'' None]) =
     (Inr (), [Element ?p][0 := Element (?p\<lparr>childNodes := childNodes ?p @ [length [Element ?p]]\<rparr>)]
                @ [Text ''a'' (Some 0)])"
    using arguments_left_to_right
            [where ?h1.0 = "[Element ?p]" and el = 0 and e = ?p and s = "''a''"] g2 r2
    by blast
  have w7: "Object_assign 0 (JSObject ?given) [Element ?in] =
        (Inr (), [Element ?in][0 := Element (?in\<lparr>properties :=
                      fold (\<lambda>(k, v). AList.update k v) ?given (properties ?in)\<rparr>)])"
    using arguments_left_to_right
            [where ?h1.0 = "[Element ?in]" and el = 0 and e = ?in and bag = ?given] g3 k3
    by blast
  from w1 w2 w3 w4 w5 w6 w7 n1 r2 k3(1) k3(3) show ?thesis by (simp add: numeral_2_eq_2)
qed

text \<open>
  Claim C3. \<^verbatim>\<open>false\<close>, \<^verbatim>\<open>null\<close> or \<^verbatim>\<open>undefined\<close> anywhere among the trailing arguments
  is a no-op: the call gives the result (the element or the exception, and the document)
  of the same call without that argument, and the step taken for such an argument leaves
  the document as it is and raises nothing.
\<close>

theorem falsy_argument_noop:
  "dollar selector (xs @ Value (JSBoolean False) # ys) h = dollar selector (xs @ ys) h \<and>
   dollar selector (xs @ Value JSNull # ys) h = dollar selector (xs @ ys) h \<and>
   dollar selector (xs @ Value JSUndefined # ys) h = dollar selector (xs @ ys) h \<and>
   applyProp el (Value (JSBoolean False)) h' = (Inr (), h') \<and>
   applyProp el (Value JSNull) h' = (Inr (), h') \<and>
   applyProp el (Value JSUndefined) h' = (Inr (), h')"
  by (simp add: dollar_skip applyProp_no_properties typeof_def)

text \<open>
  Claim C4. When the selector does not start with a letter, digit, hyphen or underscore,
  the tag is \<^verbatim>\<open>div\<close> and \<^verbatim>\<open>$\<close> returns a new \<^verbatim>\<open>div\<close> element; when it has no
  identifier marker and no class marker either (the empty selector is one such), that
  element has no identifier, no classes and nothing else set.
\<close>

theorem default_tag_div:
  assumes "takeWhile wordchar selector = []"
  shows "tag_name selector = ''div'' \<and>
         (\<exists>e. dollar selector [] h = (Inr (length h), h @ [Element e]) \<and>
              localName e = ''div'') \<and>
         (\<not> has_marker CHR ''#'' selector \<and> \<not> has_marker CHR ''.'' selector \<longrightarrow>
            dollar selector [] h =
              (Inr (length h),
               h @ [Element \<lparr>localName = ''div'', properties = [], classList = [],
                              childNodes = [], parentNode = None\<rparr>]))"
proof -
  have t: "tag_name selector = ''div''"
    using assms by (rule tag_name_default)
  have v: "valid_element_local_name (tag_name selector)"
    unfolding t by (rule valid_div)
  have d: "dollar selector [] h = (Inr (length h), h @ [Element (selector_element selector)])"
    by (simp only: dollar_eq v if_True forEach.simps) simp
  have l: "localName (selector_element selector) = ''div''"
    by (simp add: selector_element_def t ascii_lower_def)
  have "selector_element selector =
          \<lparr>localName = ''div'', properties = [], classList = [],
           childNodes = [], parentNode = None\<rparr>"
    if "\<not> has_marker CHR ''#'' selector" "\<not> has_marker CHR ''.'' selector"
    using that
    by (simp add: selector_element_def t ascii_lower_def no_marker_match_id no_marker_class_matches)
  with t d l show ?thesis by auto
qed

theorem default_tag_div_witness:
  "takeWhile wordchar [] = [] \<and>
   \<not> has_marker CHR ''#'' [] \<and> \<not> has_marker CHR ''.'' [] \<and>
   tag_name [] = ''div'' \<and>
   dollar [] [] [] =
     (Inr 0,
      [Element \<lparr>localName = ''div'', properties = [], classList = [],
                 childNodes = [], parentNode = None\<rparr>]) \<and>
   takeWhile wordchar ''[x]#a'' = [] \<and> tag_name ''[x]#a'' = ''div'' \<and>
   (\<exists>e. dollar ''[x]#a'' [] [] = (Inr 0, [Element e]) \<and> localName e = ''div'')"
  using default_tag_div [of "[]" "[]"] default_tag_div [of "''[x]#a''" "[]"]
  by (simp add: wordchar_def ascii_alpha_def ascii_digit_def)

text \<open>
  Claim C5. When the selector has an identifier \<open>y\<close> and a property bag among the
  trailing arguments has the key \<^verbatim>\<open>id\<close> with value \<open>x\<close>, the identifier of the returned
  element is \<open>x\<close>, where the selector alone gives \<open>y\<close>: the bag is applied after the
  selector's identifier, and the last write wins. The arguments before the bag are any
  that the call gets through (a callback is taken not to unmake the element); the bag is
  the last to write the identifier, that is, the arguments after it leave it alone.
\<close>

theorem bag_identifier_wins:
  assumes sel: "match_id selector = Some y"
      and bag: "map_of bag ''id'' = Some (JSString x)" "distinct (map fst bag)"
      and pre: "dollar selector pre h = (Inr el, h1)" "is_element h1 el"
      and post: "list_all keeps_id post"
      and call: "dollar selector (pre @ Value (JSObject bag) # post) h = (Inr el', h')"
  shows "el' = el \<and> get_property h' el ''id'' = Some (JSString x) \<and>
         (\<exists>h0. dollar selector [] h = (Inr el, h0) \<and>
               get_property h0 el ''id'' = Some (JSString y))"
proof -
  from pre(1) have v: "valid_element_local_name (tag_name selector)"
    by (auto simp: dollar_eq split: if_splits)
  let ?h0 = "h @ [Element (selector_element selector)]"
  from pre(1) v have el: "el = length h"
    and p1: "forEach (applyProp (length h)) pre ?h0 = (Inr (), h1)"
    by (auto simp: dollar_eq split: prod.splits sum.splits)
  from call v have el': "el' = length h"
    and c1: "forEach (applyProp (length h)) (pre @ Value (JSObject bag) # post) ?h0
               = (Inr (), h')"
    by (auto simp: dollar_eq split: prod.splits sum.splits)
  from c1 p1 obtain hb where
    b1: "assign_entries el bag h1 = (Inr (), hb)" and
    c2: "forEach (applyProp el) post hb = (Inr (), h')"
    by (auto simp: forEach_append applyProp_assign typeof_def el Object_assign_def
             split: prod.splits sum.splits)
  have "get_property hb el ''id'' = Some (JSString x)"
    using get_property_assign[OF pre(2) bag(2) bag(1) b1] .
  with forEach_keeps_id[OF post c2] have x: "get_property h' el ''id'' = Some (JSString x)"
    by simp
  have "dollar selector [] h = (Inr el, ?h0)"
    using v by (simp add: dollar_eq el)
  moreover have "get_property ?h0 el ''id'' = Some (JSString y)"
    by (simp add: get_property_def el selector_element_def sel)
  ultimately show ?thesis
    using x el el' by blast
qed

theorem bag_identifier_wins_witness:
  "dollar ''div#y'' [Value (JSString ''t''), Value (JSObject [(''id'', JSString ''x'')]),
                     Value (JSObject [(''title'', JSString ''u'')])] [] =
     (Inr 0,
      [Element \<lparr>localName = ''div'',
                 properties = [(''id'', JSString ''x''), (''title'', JSString ''u'')],
                 classList = [], childNodes = [1], parentNode = None\<rparr>,
       Text ''t'' (Some 0)]) \<and>
   get_property
     [Element \<lparr>localName = ''div'',
                properties = [(''id'', JSString ''x''), (''title'', JSString ''u'')],
                classList = [], childNodes = [1], parentNode = None\<rparr>,
      Text ''t'' (Some 0)] 0 ''id'' = Some (JSString ''x'')"
proof -
  let ?h1 = "[Element \<lparr>localName = ''div'', properties = [(''id'', JSString ''y'')],
                        classList = [], childNodes = [1], parentNode = None\<rparr>,
              Text ''t'' (Some 0)]"
  let ?h' = "[Element \<lparr>localName = ''div'',
                 properties = [(''id'', JSString ''x''), (''title'', JSString ''u'')],
                 classList = [], childNodes = [1], parentNode = None\<rparr>,
       Text ''t'' (Some 0)]"
  have s: "match_id ''div#y'' = Some ''y''"
    by (simp add: wordchar_def ascii_alpha_def ascii_digit_def)
  have b: "map_of [(''id'', JSString ''x'')] ''id'' = Some (JSString ''x'')"
          "distinct (map fst [(''id'', JSString ''x'')])"
    by simp_all
  have p: "dollar ''div#y'' [Value (JSString ''t'')] [] = (Inr 0, ?h1)"
    by (simp add: eval_defs)
  have e: "is_element ?h1 0"
    by (simp add: is_element_def)
  have k: "list_all keeps_id [Value (JSObject [(''title'', JSString ''u'')])]"
    by (simp add: keeps_id_def)
  have c: "dollar ''div#y''
             ([Value (JSString ''t'')] @ Value (JSObject [(''id'', JSString ''x'')]) #
              [Value (JSObject [(''title'', JSString ''u'')])]) [] = (Inr 0, ?h')"
    by (simp add: eval_defs)
  from bag_identifier_wins [OF s b p e k c] c show ?thesis by simp
qed

text \<open>
  Claim C6. When the call with the first arguments returns and the callable that follows
  them throws, the call throws the same exception and leaves the document as the
  callable left it, which is the document the selector and the earlier arguments made,
  changed by what the callable did before it threw: nothing is rolled back, and the
  arguments after the callable play no part.
\<close>

theorem callable_throw_no_rollback:
  assumes "dollar selector pre h = (Inr el, h1)" and "f el h1 = (Inl e, h2)"
  shows "dollar selector (pre @ Function f # post) h = (Inl e, h2)"
  using assms
  by (auto simp: dollar_eq forEach_append applyProp_Function
           split: if_splits prod.splits sum.splits)

theorem callable_throw_no_rollback_witness:
  "dollar ''p#x.y''
     [Value (JSString ''a''),
      Function (\<lambda>el h. (Inl (Thrown (JSString ''boom'')),
                         set_property el ''title'' (JSString ''t'') h)),
      Value (JSString ''never'')] [] =
   (Inl (Thrown (JSString ''boom'')),
    [Element \<lparr>localName = ''p'',
               properties = [(''id'', JSString ''x''), (''title'', JSString ''t'')],
               classList = [''y''], childNodes = [1], parentNode = None\<rparr>,
     Text ''a'' (Some 0)])"
proof -
  let ?h1 = "[Element \<lparr>localName = ''p'', properties = [(''id'', JSString ''x'')],
                        classList = [''y''], childNodes = [1], parentNode = None\<rparr>,
              Text ''a'' (Some 0)]"
  have a: "dollar ''p#x.y'' [Value (JSString ''a'')] [] = (Inr 0, ?h1)"
    by (simp add: eval_defs)
  have b: "(\<lambda>el h. (Inl (Thrown (JSString ''boom'')),
                     set_property el ''title'' (JSString ''t'') h)) 0 ?h1 =
           (Inl (Thrown (JSString ''boom'')),
            [Element \<lparr>localName = ''p'',
                       properties = [(''id'', JSString ''x''), (''title'', JSString ''t'')],
                       classList = [''y''], childNodes = [1], parentNode = None\<rparr>,
             Text ''a'' (Some 0)])"
    by (simp add: set_property_def update_element_def get_element_def)
  show ?thesis
    using a b
      callable_throw_no_rollback
        [where selector = "''p#x.y''" and pre = "[Value (JSString ''a'')]" and h = "[]"
           and el = 0 and ?h1.0 = ?h1
           and f = "\<lambda>el h. (Inl (Thrown (JSString ''boom'')),
                              set_property el ''title'' (JSString ''t'') h)"
           and post = "[Value (JSString ''never'')]"]
    by simp
qed

text \<open>
  Claim C7. When the host does not accept the extracted tag name, creating the element
  raises the host's error, \<^verbatim>\<open>$\<close> ends with that error, and the document is the one
  the call started with, whatever the trailing arguments are.
\<close>

theorem invalid_tag_no_mutation:
  assumes "\<not> valid_element_local_name (tag_name selector)"
  shows "createElement (tag_name selector) h = (Inl InvalidCharacterError, h) \<and>
         dollar selector rest h = (Inl InvalidCharacterError, h)"
  using assms by (simp add: dollar_eq createElement_def)

theorem invalid_tag_no_mutation_witness:
  "\<not> valid_element_local_name (tag_name ''1st#a.b'') \<and>
   dollar ''1st#a.b''
     [Value (JSString ''x''), Function (\<lambda>el h. (Inr JSUndefined, []))]
     [Text ''t'' None] =
   (Inl InvalidCharacterError, [Text ''t'' None])"
  using invalid_tag_no_mutation
          [of "''1st#a.b''" "[Text ''t'' None]"
              "[Value (JSString ''x''), Function (\<lambda>el h. (Inr JSUndefined, []))]"]
  by (simp add: tag_name_def match_tag_def wordchar_def ascii_alpha_def ascii_digit_def
        name_start_other_def)

text \<open>
  Claim C8. For the selector \<^verbatim>\<open>div#a#b\<close> the identifier pattern captures \<^verbatim>\<open>a\<close>, the
  class pattern matches nothing, and \<^verbatim>\<open>$\<close> returns a \<^verbatim>\<open>div\<close> with identifier \<^verbatim>\<open>a\<close>
  and no classes: the second \<^verbatim>\<open>#b\<close> is dropped and no error is raised.
\<close>

theorem second_hash_dropped:
  "match_id ''div#a#b'' = Some ''a'' \<and>
   match_class ''div#a#b'' = None \<and>
   dollar ''div#a#b'' [] h =
     (Inr (length h),
      h @ [Element \<lparr>localName = ''div'', properties = [(''id'', JSString ''a'')],
                     classList = [], childNodes = [], parentNode = None\<rparr>])"
  by (simp add: dollar_def tag_name_def match_tag_def match_class_def createElement_def
        wordchar_def ascii_alpha_def ascii_digit_def name_rest_after_alpha_def
        ascii_whitespace_def ascii_lower_def)

text \<open>
  Claim C9, as it holds. Calling \<^verbatim>\<open>$\<close> twice with the same arguments, none of them an
  element made before and every callable one that has no external effects and depends
  on nothing but the nodes of the call it runs in, gives two different elements with the
  same structure: when the first call returns an element, so does the second, the two
  references differ, and the tag, properties, classes and children read off below the
  two elements are the same, to any depth. The second call leaves the first element as
  it was.
\<close>

theorem twice_equivalent_distinct:
  assumes "list_all self_contained args" and "dollar selector args h = (Inr r1, h1)"
  shows "\<exists>r2 h2. dollar selector args h1 = (Inr r2, h2) \<and> r1 \<noteq> r2 \<and>
           (\<forall>n. snapshot n h2 r1 = snapshot n h2 r2) \<and>
           (\<forall>n. snapshot (Suc n) h2 r2 \<noteq> Missing) \<and>
           (\<forall>n. snapshot n h2 r1 = snapshot n h1 r1)"
proof -
  from assms(2) have v: "valid_element_local_name (tag_name selector)"
    by (auto simp: dollar_eq split: if_splits)
  let ?s0 = "[Element (selector_element selector)]"
  have o0: "own_nodes ?s0"
    by (simp add: own_nodes_def closed_def refs_below_def is_element_def selector_element_def)
  from forEach_placed[OF assms(1) o0] obtain r seg where
    o: "own_nodes seg" and
    f: "\<And>h. forEach (applyProp (length h)) args (placed h ?s0) = (r, placed h seg)"
    by blast
  from assms(2) v f[of h] have r1: "r1 = length h" and r: "r = Inr ()" and h1: "h1 = placed h seg"
    by (auto simp: dollar_eq placed_single split: prod.splits sum.splits)
  from o have c: "closed seg" and lt: "0 < length seg"
    by (auto simp: own_nodes_def is_element_def split: if_splits)
  let ?h2 = "placed h1 seg"
  have d2: "dollar selector args h1 = (Inr (length h1), ?h2)"
    using v f[of h1] by (simp add: dollar_eq placed_single r)
  have ne: "r1 \<noteq> length h1"
    using lt by (simp add: r1 h1)
  have h2: "?h2 = placed h seg @ map (shift_node (length h1)) seg"
    unfolding h1[symmetric] by (simp add: placed_def)
  have a: "snapshot n ?h2 r1 = snapshot n seg 0" for n
    unfolding h2 r1 using snapshot_placed[OF c lt, of n h] by simp
  have b: "snapshot n ?h2 (length h1) = snapshot n seg 0" for n
    using snapshot_placed[OF c lt, of n h1 "[]"] by simp
  have d: "snapshot n h1 r1 = snapshot n seg 0" for n
    unfolding h1 r1 using snapshot_placed[OF c lt, of n h "[]"] by simp
  have m: "snapshot (Suc n) seg 0 \<noteq> Missing" for n
    using o by (auto simp: own_nodes_def is_element_def split: if_splits node.splits)
  have s1: "snapshot n ?h2 r1 = snapshot n ?h2 (length h1)" for n
    by (simp only: a b)
  have s2: "snapshot (Suc n) ?h2 (length h1) \<noteq> Missing" for n
    unfolding b by (rule m)
  have s3: "snapshot n ?h2 r1 = snapshot n h1 r1" for n
    by (simp only: a d)
  from d2 ne s1 s2 s3 show ?thesis by blast
qed

theorem twice_equivalent_distinct_witness:
  "list_all self_contained
     [Value (JSString ''x''), Value (JSObject [(''title'', JSString ''t'')]),
      Function append_note] \<and>
   dollar ''li.item''
     [Value (JSString ''x''), Value (JSObject [(''title'', JSString ''t'')]),
      Function append_note] [] =
     (Inr 0,
      [Element \<lparr>localName = ''li'', properties = [(''title'', JSString ''t'')],
                 classList = [''item''], childNodes = [1, 2], parentNode = None\<rparr>,
       Text ''x'' (Some 0), Text ''note'' (Some 0)]) \<and>
   (\<exists>r2 h2.
      dollar ''li.item''
        [Value (JSString ''x''), Value (JSObject [(''title'', JSString ''t'')]),
         Function append_note]
        [Element \<lparr>localName = ''li'', properties = [(''title'', JSString ''t'')],
                   classList = [''item''], childNodes = [1, 2], parentNode = None\<rparr>,
         Text ''x'' (Some 0), Text ''note'' (Some 0)] = (Inr r2, h2) \<and>
      0 \<noteq> r2 \<and>
      snapshot (Suc (Suc 0)) h2 0 = snapshot (Suc (Suc 0)) h2 r2 \<and>
      snapshot (Suc (Suc 0)) h2 r2 \<noteq> Missing)"
proof -
  let ?args = "[Value (JSString ''x''), Value (JSObject [(''title'', JSString ''t'')]),
                Function append_note]"
  let ?h1 = "[Element \<lparr>localName = ''li'', properties = [(''title'', JSString ''t'')],
                 classList = [''item''], childNodes = [1, 2], parentNode = None\<rparr>,
              Text ''x'' (Some 0), Text ''note'' (Some 0)]"
  have a: "list_all self_contained ?args"
    by (simp add: self_contained_def local_append_note)
  have b: "dollar ''li.item'' ?args [] = (Inr 0, ?h1)"
    by (simp add: eval_defs append_note_def)
  from twice_equivalent_distinct [OF a b] a b show ?thesis
    by blast
qed

text \<open>
  Claim C9, as the specification words it, asks of a callable only that it has no
  external effects. The callback \<open>stamp_size\<close> changes nothing but the element it is
  given, yet what it writes depends on the document: two calls with it as the only
  trailing argument return elements whose properties differ.
\<close>

theorem twice_not_equivalent_counterexample:
  "dollar ''div'' [Function stamp_size] [] =
     (Inr 0,
      [Element \<lparr>localName = ''div'', properties = [(''n'', JSNumber 1)], classList = [],
                 childNodes = [], parentNode = None\<rparr>]) \<and>
   dollar ''div'' [Function stamp_size]
     [Element \<lparr>localName = ''div'', properties = [(''n'', JSNumber 1)], classList = [],
                childNodes = [], parentNode = None\<rparr>] =
     (Inr 1,
      [Element \<lparr>localName = ''div'', properties = [(''n'', JSNumber 1)], classList = [],
                 childNodes = [], parentNode = None\<rparr>,
       Element \<lparr>localName = ''div'', properties = [(''n'', JSNumber 2)], classList = [],
                 childNodes = [], parentNode = None\<rparr>]) \<and>
   snapshot (Suc 0)
     [Element \<lparr>localName = ''div'', properties = [(''n'', JSNumber 1)], classList = [],
                childNodes = [], parentNode = None\<rparr>,
      Element \<lparr>localName = ''div'', properties = [(''n'', JSNumber 2)], classList = [],
                childNodes = [], parentNode = None\<rparr>] 0 \<noteq>
   snapshot (Suc 0)
     [Element \<lparr>localName = ''div'', properties = [(''n'', JSNumber 1)], classList = [],
                childNodes = [], parentNode = None\<rparr>,
      Element \<lparr>localName = ''div'', properties = [(''n'', JSNumber 2)], classList = [],
                childNodes = [], parentNode = None\<rparr>] 1"
  by (simp add: eval_defs stamp_size_def Let_def)

text \<open>
  Claim C10. \<^verbatim>\<open>true\<close> or a number among the trailing arguments is a no-op as well: it
  reaches the last branch, \<^verbatim>\<open>Object.assign\<close>, which finds no property to copy, so the
  call gives the result of the same call without that argument.
\<close>

theorem primitive_argument_noop:
  "dollar selector (xs @ Value (JSBoolean True) # ys) h = dollar selector (xs @ ys) h \<and>
   dollar selector (xs @ Value (JSNumber n) # ys) h = dollar selector (xs @ ys) h \<and>
   applyProp el (Value (JSBoolean True)) h' = Object_assign el (JSBoolean True) h' \<and>
   applyProp el (Value (JSNumber n)) h' = Object_assign el (JSNumber n) h' \<and>
   Object_assign el (JSBoolean True) h' = (Inr (), h') \<and>
   Object_assign el (JSNumber n) h' = (Inr (), h')"
  by (simp add: dollar_skip applyProp_no_properties typeof_def Object_assign_def)

end
